theory Spec2Isabelle
  imports Complex_Main
begin

section \<open>JavaScript numbers\<close>

text \<open>
  The program computes with IEEE doubles. The embedding reads a finite double as the
  real number it denotes and ignores rounding; zero is unsigned. The cell dimensions of
  a field are quotients by the resolution, which may be zero, so the geometry is computed
  over the reals extended by the three non-finite values of a JavaScript number.
\<close>

datatype 'a ext = Fin 'a | PosInfinity | NegInfinity | NaN

fun js_div :: "real ext \<Rightarrow> real ext \<Rightarrow> real ext" where
  "js_div (Fin a) (Fin b) =
     (if b \<noteq> 0 then Fin (a / b)
      else if a > 0 then PosInfinity else if a < 0 then NegInfinity else NaN)"
| "js_div (Fin a) PosInfinity = Fin 0"
| "js_div (Fin a) NegInfinity = Fin 0"
| "js_div PosInfinity (Fin b) = (if b \<ge> 0 then PosInfinity else NegInfinity)"
| "js_div NegInfinity (Fin b) = (if b \<ge> 0 then NegInfinity else PosInfinity)"
| "js_div _ _ = NaN"

fun js_mul :: "real ext \<Rightarrow> real ext \<Rightarrow> real ext" where
  "js_mul (Fin a) (Fin b) = Fin (a * b)"
| "js_mul (Fin a) PosInfinity =
     (if a > 0 then PosInfinity else if a < 0 then NegInfinity else NaN)"
| "js_mul (Fin a) NegInfinity =
     (if a > 0 then NegInfinity else if a < 0 then PosInfinity else NaN)"
| "js_mul PosInfinity (Fin b) =
     (if b > 0 then PosInfinity else if b < 0 then NegInfinity else NaN)"
| "js_mul NegInfinity (Fin b) =
     (if b > 0 then NegInfinity else if b < 0 then PosInfinity else NaN)"
| "js_mul PosInfinity PosInfinity = PosInfinity"
| "js_mul PosInfinity NegInfinity = NegInfinity"
| "js_mul NegInfinity PosInfinity = NegInfinity"
| "js_mul NegInfinity NegInfinity = PosInfinity"
| "js_mul _ _ = NaN"

fun js_add :: "'a::plus ext \<Rightarrow> 'a ext \<Rightarrow> 'a ext" where
  "js_add (Fin a) (Fin b) = Fin (a + b)"
| "js_add (Fin a) PosInfinity = PosInfinity"
| "js_add (Fin a) NegInfinity = NegInfinity"
| "js_add PosInfinity (Fin b) = PosInfinity"
| "js_add NegInfinity (Fin b) = NegInfinity"
| "js_add PosInfinity PosInfinity = PosInfinity"
| "js_add NegInfinity NegInfinity = NegInfinity"
| "js_add _ _ = NaN"

fun js_sub :: "'a::minus ext \<Rightarrow> 'a ext \<Rightarrow> 'a ext" where
  "js_sub (Fin a) (Fin b) = Fin (a - b)"
| "js_sub (Fin a) PosInfinity = NegInfinity"
| "js_sub (Fin a) NegInfinity = PosInfinity"
| "js_sub PosInfinity (Fin b) = PosInfinity"
| "js_sub NegInfinity (Fin b) = NegInfinity"
| "js_sub PosInfinity NegInfinity = PosInfinity"
| "js_sub NegInfinity PosInfinity = NegInfinity"
| "js_sub _ _ = NaN"

text \<open>\<^verbatim>\<open>Math.floor\<close> and \<^verbatim>\<open>Math.ceil\<close>: the result of a finite argument is an integer.\<close>

fun js_floor :: "real ext \<Rightarrow> int ext" where
  "js_floor (Fin a) = Fin \<lfloor>a\<rfloor>"
| "js_floor PosInfinity = PosInfinity"
| "js_floor NegInfinity = NegInfinity"
| "js_floor NaN = NaN"

fun js_ceil :: "real ext \<Rightarrow> int ext" where
  "js_ceil (Fin a) = Fin \<lceil>a\<rceil>"
| "js_ceil PosInfinity = PosInfinity"
| "js_ceil NegInfinity = NegInfinity"
| "js_ceil NaN = NaN"

text \<open>
  The remainder operator \<^verbatim>\<open>a % b\<close> on finite numbers with \<open>b \<noteq> 0\<close>: the quotient is
  truncated towards zero, so the result has the sign of \<open>a\<close>.
\<close>

definition js_rem :: "real \<Rightarrow> real \<Rightarrow> real" where
  "js_rem a b = sgn a * (\<bar>a\<bar> - \<bar>b\<bar> * of_int \<lfloor>\<bar>a\<bar> / \<bar>b\<bar>\<rfloor>)"

text \<open>\<^verbatim>\<open>Math.round\<close>: the nearest integer, a tie going up.\<close>

definition js_round :: "real \<Rightarrow> real" where
  "js_round a = of_int \<lfloor>a + 1 / 2\<rfloor>"

text \<open>An array read \<^verbatim>\<open>xs[i]\<close>: \<^verbatim>\<open>undefined\<close> out of range.\<close>

definition nth_opt :: "'a list \<Rightarrow> nat \<Rightarrow> 'a option" where
  "nth_opt xs i = (if i < length xs then Some (xs ! i) else None)"

section \<open>WaveField.js\<close>

subsection \<open>Cells and the field\<close>

text \<open>
  A cell object of the grid. \<open>color\<close> is the three-element array, \<open>velocity\<close> the object
  \<^verbatim>\<open>{x, y}\<close>; the constructor gives every cell a velocity and no method removes it.
\<close>

record Cell =
  energy :: real
  frequency :: real
  color :: "real \<times> real \<times> real"
  lastActive :: nat
  phase :: real
  velocity :: "real \<times> real"

record WaveField =
  width :: real
  height :: real
  resolution :: nat
  cellWidth :: "real ext"
  cellHeight :: "real ext"
  grid :: "Cell list"
  decayRate :: real
  propagationSpeed :: real
  timeStep :: nat
  maxVelocity :: real

text \<open>
  What a call can throw: \<^verbatim>\<open>new Array(n)\<close> throws a RangeError when \<open>n\<close> is not an array
  length (at most \<open>2^32 - 1\<close>), a property read of \<^verbatim>\<open>undefined\<close> a TypeError.
\<close>

datatype error = RangeError | TypeError

definition initial_cell :: Cell where
  "initial_cell =
     \<lparr>energy = 0, frequency = 440, color = (0, 0, 0), lastActive = 0, phase = 0,
      velocity = (0, 0)\<rparr>"

text \<open>
  \<^verbatim>\<open>constructor(width, height, resolution)\<close>, for a resolution that is a natural number.
  Nothing checks the resolution: the only failure is the array allocation.
\<close>

definition new_WaveField :: "real \<Rightarrow> real \<Rightarrow> nat \<Rightarrow> error + WaveField" where
  "new_WaveField width' height' resolution' =
     (if resolution' * resolution' > 4294967295 then Inl RangeError
      else Inr
        \<lparr>width = width', height = height', resolution = resolution',
         cellWidth = js_div (Fin width') (Fin (real resolution')),
         cellHeight = js_div (Fin height') (Fin (real resolution')),
         grid = replicate (resolution' * resolution') initial_cell,
         decayRate = 0.98, propagationSpeed = 0.3, timeStep = 0, maxVelocity = 5\<rparr>)"

text \<open>
  \<^verbatim>\<open>getCell(x, y)\<close> for integer coordinates: \<^verbatim>\<open>null\<close> outside the grid; inside, the array
  read (\<^verbatim>\<open>undefined\<close>, which callers treat like \<^verbatim>\<open>null\<close>, if the array were shorter).
\<close>

definition getCell :: "WaveField \<Rightarrow> int \<Rightarrow> int \<Rightarrow> Cell option" where
  "getCell w x y =
     (if x < 0 \<or> x \<ge> int (resolution w) \<or> y < 0 \<or> y \<ge> int (resolution w) then None
      else nth_opt (grid w) (nat (y * int (resolution w) + x)))"

definition gridToWorld :: "WaveField \<Rightarrow> int \<Rightarrow> int \<Rightarrow> real ext \<times> real ext" where
  "gridToWorld w gridX gridY =
     (js_add (js_mul (Fin (of_int gridX)) (cellWidth w)) (js_div (cellWidth w) (Fin 2)),
      js_add (js_mul (Fin (of_int gridY)) (cellHeight w)) (js_div (cellHeight w) (Fin 2)))"

definition worldToGrid :: "WaveField \<Rightarrow> real ext \<Rightarrow> real ext \<Rightarrow> int ext \<times> int ext" where
  "worldToGrid w worldX worldY =
     (js_floor (js_div worldX (cellWidth w)), js_floor (js_div worldY (cellHeight w)))"

text \<open>\<^verbatim>\<open>clear()\<close>: the four assignments of the \<^verbatim>\<open>forEach\<close> body, on every cell.\<close>

definition clear :: "WaveField \<Rightarrow> WaveField" where
  "clear w =
     w\<lparr>grid :=
         map (\<lambda>cell. cell\<lparr>energy := 0, frequency := 440, color := (0, 0, 0), phase := 0\<rparr>)
           (grid w)\<rparr>"

text \<open>
  A loop whose body can throw: the first error ends it.
\<close>

fun fold_err :: "('a \<Rightarrow> 's \<Rightarrow> error + 's) \<Rightarrow> 'a list \<Rightarrow> 's \<Rightarrow> error + 's" where
  "fold_err f [] s = Inr s"
| "fold_err f (x # xs) s = (case f x s of Inl e \<Rightarrow> Inl e | Inr s' \<Rightarrow> fold_err f xs s')"

subsection \<open>addEnergy\<close>

text \<open>The colour blend: each of the three components is rounded.\<close>

definition blend_color ::
  "real \<times> real \<times> real \<Rightarrow> real \<times> real \<times> real \<Rightarrow> real \<Rightarrow> real \<times> real \<times> real" where
  "blend_color c c' blendFactor =
     (case (c, c') of ((r, g, b), (r', g', b')) \<Rightarrow>
        (js_round (r * (1 - blendFactor) + r' * blendFactor),
         js_round (g * (1 - blendFactor) + g' * blendFactor),
         js_round (b * (1 - blendFactor) + b' * blendFactor)))"

text \<open>
  \<^verbatim>\<open>addEnergy(gridX, gridY, amount, frequency, color)\<close> at integer coordinates. The divisor
  of the blend factor is positive when the cell's energy is not negative.
\<close>

definition addEnergy ::
  "WaveField \<Rightarrow> int \<Rightarrow> int \<Rightarrow> real \<Rightarrow> real \<Rightarrow> real \<times> real \<times> real \<Rightarrow> WaveField" where
  "addEnergy w gridX gridY amount frequency' color' =
     (case getCell w gridX gridY of
        None \<Rightarrow> w
      | Some cell \<Rightarrow>
          let currentEnergy = energy cell;
              newEnergy = min 1 (currentEnergy + amount);
              cell1 =
                (if amount > 0.05 then
                   let blendFactor = amount / (currentEnergy + amount)
                   in cell\<lparr>frequency :=
                             frequency cell * (1 - blendFactor) + frequency' * blendFactor,
                           color := blend_color (color cell) color' blendFactor\<rparr>
                 else cell)
          in w\<lparr>grid := (grid w)[nat (gridY * int (resolution w) + gridX) :=
                   cell1\<lparr>energy := newEnergy, lastActive := timeStep w\<rparr>]\<rparr>)"

subsection \<open>addWavePulse\<close>

text \<open>\<^verbatim>\<open>Math.atan2(y, x)\<close> on finite numbers.\<close>

definition atan2 :: "real \<Rightarrow> real \<Rightarrow> real" where
  "atan2 y x =
     (if x > 0 then arctan (y / x)
      else if x < 0 then (if y \<ge> 0 then arctan (y / x) + pi else arctan (y / x) - pi)
      else if y > 0 then pi / 2 else if y < 0 then - pi / 2 else 0)"

text \<open>
  The cone test of a directional pulse: \<open>(isInDirection, directionFactor)\<close>. The
  quotient by \<open>halfSpread\<close> is a quotient by zero only for \<open>spreadAngle = 0\<close>.
\<close>

definition direction :: "real \<Rightarrow> real \<Rightarrow> real \<Rightarrow> real \<Rightarrow> bool \<times> real" where
  "direction spreadAngle angle dy dx =
     (if spreadAngle < 360 then
        let cellAngle = atan2 dy dx;
            angleDiff0 = \<bar>cellAngle - angle\<bar>;
            angleDiff = (if angleDiff0 > pi then 2 * pi - angleDiff0 else angleDiff0);
            halfSpread = (spreadAngle * pi) / 360;
            isInDirection = (angleDiff \<le> halfSpread)
        in (isInDirection, if isInDirection then 1 - angleDiff / halfSpread else 0)
      else (True, 1))"

text \<open>
  What the pulse writes into one cell, from \<^verbatim>\<open>const currentEnergy\<close> to
  \<^verbatim>\<open>cell.lastActive = this.timeStep\<close>. \<^verbatim>\<open>newEnergy || 1\<close> is 1 when \<open>newEnergy\<close> is 0; the
  divisor of the second blend factor is positive when the cell's energy is not negative.
\<close>

definition inject ::
  "Cell \<Rightarrow> real \<Rightarrow> real \<Rightarrow> real \<Rightarrow> real \<Rightarrow> real \<Rightarrow> real \<times> real \<times> real \<Rightarrow> nat \<Rightarrow> Cell" where
  "inject cell cellIntensity directionFactor velocityX velocityY frequency' color' timeStep' =
     (let currentEnergy = energy cell;
          newEnergy = min 1 (currentEnergy + cellIntensity);
          vx = velocityX * cellIntensity * directionFactor;
          vy = velocityY * cellIntensity * directionFactor;
          cell1 =
            (if cellIntensity > 0.1 then
               let blendFactor = cellIntensity / (if newEnergy = 0 then 1 else newEnergy)
               in cell\<lparr>velocity :=
                         (fst (velocity cell) * (1 - blendFactor) + vx * blendFactor,
                          snd (velocity cell) * (1 - blendFactor) + vy * blendFactor)\<rparr>
             else cell);
          cell2 =
            (if cellIntensity > 0.05 then
               let blendFactor = cellIntensity / newEnergy
               in cell1\<lparr>frequency :=
                          frequency cell1 * (1 - blendFactor) + frequency' * blendFactor,
                        color := blend_color (color cell1) color' blendFactor\<rparr>
             else cell1)
      in cell2\<lparr>energy := newEnergy, lastActive := timeStep'\<rparr>)"

text \<open>
  The body of the two scanning loops at the cell \<open>(x, y)\<close>. A cell centre that is not
  finite has an infinite or undefined distance, and \<^verbatim>\<open>distance <= radius\<close> is false.
\<close>

definition pulse_cell ::
  "real \<Rightarrow> real \<Rightarrow> real \<Rightarrow> real \<Rightarrow> real \<Rightarrow> real \<times> real \<times> real \<Rightarrow> real \<Rightarrow> real \<Rightarrow> real \<Rightarrow> real
     \<Rightarrow> int \<Rightarrow> int \<Rightarrow> WaveField \<Rightarrow> error + WaveField" where
  "pulse_cell worldX worldY radius intensity frequency' color' angle spreadAngle
       velocityX velocityY y x w =
     (if x < 0 \<or> x \<ge> int (resolution w) \<or> y < 0 \<or> y \<ge> int (resolution w) then Inr w
      else
        case gridToWorld w x y of
          (Fin cellWorldX, Fin cellWorldY) \<Rightarrow>
            let dx = cellWorldX - worldX;
                dy = cellWorldY - worldY;
                distance = sqrt (dx * dx + dy * dy)
            in if distance \<le> radius then
                 let (isInDirection, directionFactor) = direction spreadAngle angle dy dx
                 in if isInDirection then
                      let waveThickness = radius * 0.2;
                          distFromWaveFront = \<bar>distance - radius\<bar>
                      in if distFromWaveFront < waveThickness then
                           let intensityFactor = 1 - distFromWaveFront / waveThickness;
                               cellIntensity = intensity * intensityFactor
                           in (case nth_opt (grid w) (nat (y * int (resolution w) + x)) of
                                 None \<Rightarrow> Inl TypeError
                               | Some cell \<Rightarrow>
                                   Inr (w\<lparr>grid := (grid w)[nat (y * int (resolution w) + x) :=
                                          inject cell cellIntensity directionFactor
                                            velocityX velocityY frequency' color'
                                            (timeStep w)]\<rparr>))
                         else Inr w
                    else Inr w
               else Inr w
        | _ \<Rightarrow> Inr w)"

text \<open>
  The values of the loop variable of \<^verbatim>\<open>for (let v = c - r; v <= c + r; v++)\<close>, or \<open>None\<close>
  when the loop never ends: a variable that starts at an infinity stays there, and a
  comparison with \<^verbatim>\<open>NaN\<close> is false. The two bounds are both finite or both not, and a
  variable stuck at an infinity fails the bounds test of the body.
\<close>

definition scan_range :: "int ext \<Rightarrow> int ext \<Rightarrow> int list option" where
  "scan_range c r =
     (case (js_sub c r, js_add c r) of
        (Fin a, Fin b) \<Rightarrow> Some [a..b]
      | (PosInfinity, PosInfinity) \<Rightarrow> None
      | (NegInfinity, NegInfinity) \<Rightarrow> None
      | (NegInfinity, PosInfinity) \<Rightarrow> None
      | _ \<Rightarrow> Some [])"

text \<open>
  \<^verbatim>\<open>addWavePulse(worldX, worldY, radius, intensity, frequency, color, angle, spreadAngle)\<close>
  on finite arguments; \<open>None\<close> when the call does not return.
\<close>

definition addWavePulse ::
  "WaveField \<Rightarrow> real \<Rightarrow> real \<Rightarrow> real \<Rightarrow> real \<Rightarrow> real \<Rightarrow> real \<times> real \<times> real \<Rightarrow> real \<Rightarrow> real
     \<Rightarrow> (error + WaveField) option" where
  "addWavePulse w worldX worldY radius intensity frequency' color' angle spreadAngle =
     (let angle' = js_rem (js_rem angle (2 * pi) + 2 * pi) (2 * pi);
          centerGridPos = worldToGrid w (Fin worldX) (Fin worldY);
          gridRadius = js_ceil (js_div (Fin radius) (cellWidth w));
          velocityFactor = 2;
          velocityX = cos angle' * velocityFactor;
          velocityY = sin angle' * velocityFactor
      in case scan_range (snd centerGridPos) gridRadius of
           None \<Rightarrow> None
         | Some ys \<Rightarrow>
             if ys = [] then Some (Inr w)
             else
               (case scan_range (fst centerGridPos) gridRadius of
                  None \<Rightarrow> None
                | Some xs \<Rightarrow>
                    Some (fold_err
                      (\<lambda>y. fold_err
                         (pulse_cell worldX worldY radius intensity frequency' color' angle'
                            spreadAngle velocityX velocityY y) xs) ys w)))"

subsection \<open>update\<close>

text \<open>
  The loop body of \<open>update\<close> reads the cell of the old grid. Its one write to that cell
  is the phase; energy and velocity are written to the cell of the new grid.
\<close>

definition advance_phase :: "real \<Rightarrow> Cell \<Rightarrow> Cell" where
  "advance_phase deltaTime cell =
     (if energy cell > 0.01 then
        cell\<lparr>phase := js_rem (phase cell + (deltaTime * frequency cell) / 20) (pi * 2)\<rparr>
      else cell)"

text \<open>\<^verbatim>\<open>Math.pow\<close> of a positive base is \<open>powr\<close>.\<close>

definition decay_cell :: "real \<Rightarrow> real \<Rightarrow> Cell \<Rightarrow> Cell \<Rightarrow> Cell" where
  "decay_cell deltaTime decayRate' cell newCell =
     (let newEnergy = energy cell * decayRate' powr (deltaTime * 60);
          new1 = newCell\<lparr>energy := newEnergy\<rparr>;
          new2 =
            (if fst (velocity cell) \<noteq> 0 \<or> snd (velocity cell) \<noteq> 0 then
               let v =
                     (if energy cell > 0.01 then
                        let energyRatio = newEnergy / energy cell
                        in (fst (velocity cell) * energyRatio, snd (velocity cell) * energyRatio)
                      else (fst (velocity cell) * 0.8, snd (velocity cell) * 0.8));
                   velMagnitude = sqrt (fst v * fst v + snd v * snd v)
               in new1\<lparr>velocity := (if velMagnitude < 0.01 then (0, 0) else v)\<rparr>
             else new1)
      in if energy new2 < 0.01 then new2\<lparr>energy := 0\<rparr> else new2)"

definition update_cell ::
  "real \<Rightarrow> real \<Rightarrow> nat \<Rightarrow> Cell list \<times> Cell list \<Rightarrow> error + Cell list \<times> Cell list" where
  "update_cell deltaTime decayRate' cellIndex gs =
     (case gs of (oldGrid, newGrid) \<Rightarrow>
        if cellIndex < length oldGrid \<and> cellIndex < length newGrid then
          let cell = oldGrid ! cellIndex
          in Inr (oldGrid[cellIndex := advance_phase deltaTime cell],
                  newGrid[cellIndex := decay_cell deltaTime decayRate' cell (newGrid ! cellIndex)])
        else Inl TypeError)"

text \<open>
  The two grids when the loops of \<open>update\<close> are done: the old grid, which the call then
  drops, and the new grid, a copy of the old one made before the loops.
\<close>

definition update_grids :: "real \<Rightarrow> WaveField \<Rightarrow> error + Cell list \<times> Cell list" where
  "update_grids deltaTime w =
     fold_err
       (\<lambda>y. fold_err (\<lambda>x. update_cell deltaTime (decayRate w) (y * resolution w + x))
              [0..<resolution w])
       [0..<resolution w]
       (grid w, map (\<lambda>cell. cell\<lparr>velocity := (fst (velocity cell), snd (velocity cell))\<rparr>) (grid w))"

definition update :: "real \<Rightarrow> WaveField \<Rightarrow> error + WaveField" where
  "update deltaTime w =
     (case update_grids deltaTime w of
        Inl e \<Rightarrow> Inl e
      | Inr (oldGrid, newGrid) \<Rightarrow> Inr (w\<lparr>timeStep := timeStep w + 1, grid := newGrid\<rparr>))"

subsection \<open>States of a field\<close>

text \<open>
  The constructor allocates \<open>resolution * resolution\<close> cells, and no method changes the
  resolution or the length of the grid.
\<close>

definition wf_field :: "WaveField \<Rightarrow> bool" where
  "wf_field w = (length (grid w) = resolution w * resolution w)"


text \<open>
  The energy that one \<open>update\<close> leaves in a cell of energy \<open>e\<close>, where \<open>q\<close> is
  \<^verbatim>\<open>Math.pow(decayRate, deltaTime * 60)\<close>: the product, or 0 when the product is below 0.01.
\<close>

definition decay_energy :: "real \<Rightarrow> real \<Rightarrow> real" where
  "decay_energy q e = (if e * q < 0.01 then 0 else e * q)"

text \<open>
  The field \<^verbatim>\<open>new WaveField(800, 600, 1)\<close> after \<^verbatim>\<open>addEnergy(0, 0, 0.5, 440, [255, 0, 0])\<close>.
\<close>

definition excited_field :: WaveField where
  "excited_field =
     \<lparr>width = 800, height = 600, resolution = 1, cellWidth = Fin 800, cellHeight = Fin 600,
      grid = [\<lparr>energy = 1 / 2, frequency = 440, color = (255, 0, 0), lastActive = 0,
               phase = 0, velocity = (0, 0)\<rparr>],
      decayRate = 0.98, propagationSpeed = 0.3, timeStep = 0, maxVelocity = 5\<rparr>"

subsection \<open>The ring of a pulse\<close>

text \<open>
  The distance from the world centre of the cell \<open>(gridX, gridY)\<close> to the origin
  \<open>(worldX, worldY)\<close> of a pulse, and the cells the thin ring of a pulse of the given
  radius may reach: those whose distance from the wave front is below the wave
  thickness \<open>0.2 * radius\<close> and that lie within the radius.
\<close>

definition centre_distance :: "WaveField \<Rightarrow> int \<Rightarrow> int \<Rightarrow> real \<Rightarrow> real \<Rightarrow> real ext" where
  "centre_distance w gridX gridY worldX worldY =
     (case gridToWorld w gridX gridY of
        (Fin cellWorldX, Fin cellWorldY) \<Rightarrow>
          Fin (sqrt ((cellWorldX - worldX)\<^sup>2 + (cellWorldY - worldY)\<^sup>2))
      | _ \<Rightarrow> NaN)"

definition in_ring :: "WaveField \<Rightarrow> real \<Rightarrow> real \<Rightarrow> real \<Rightarrow> int \<Rightarrow> int \<Rightarrow> bool" where
  "in_ring w worldX worldY radius gridX gridY =
     (case centre_distance w gridX gridY worldX worldY of
        Fin d \<Rightarrow> \<bar>d - radius\<bar> < 0.2 * radius \<and> d \<le> radius
      | _ \<Rightarrow> False)"

text \<open>
  A field with resolution \<open>n\<close>, finite cell dimensions \<open>cw\<close> and \<open>ch\<close> and a grid
  of \<open>n * n\<close> cells, and the fields that a pulse on an empty field runs through.
\<close>

definition geometry :: "nat \<Rightarrow> real \<Rightarrow> real \<Rightarrow> WaveField \<Rightarrow> bool" where
  "geometry n cw ch w =
     (resolution w = n \<and> cellWidth w = Fin cw \<and> cellHeight w = Fin ch
      \<and> length (grid w) = n * n)"


subsection \<open>Sequences of calls\<close>

text \<open>
  The calls that change a field, with integer grid coordinates (other coordinates
  address no cell) and finite numbers as arguments; a sequence of them is run from left to right and ends at the first call
  that throws (\<open>Inl\<close>) or does not return (\<open>None\<close>). A call is valid when the amount it
  injects or the time it advances is not negative.
\<close>

datatype operation =
    AddEnergy int int real real "real \<times> real \<times> real"
  | AddWavePulse real real real real real "real \<times> real \<times> real" real real
  | Update real
  | Clear

fun valid_operation :: "operation \<Rightarrow> bool" where
  "valid_operation (AddEnergy gridX gridY amount frequency' color') = (0 \<le> amount)"
| "valid_operation (AddWavePulse worldX worldY radius intensity frequency' color' angle spreadAngle)
     = (0 \<le> intensity)"
| "valid_operation (Update deltaTime) = (0 \<le> deltaTime)"
| "valid_operation Clear = True"

fun apply_operation :: "operation \<Rightarrow> WaveField \<Rightarrow> (error + WaveField) option" where
  "apply_operation (AddEnergy gridX gridY amount frequency' color') w =
     Some (Inr (addEnergy w gridX gridY amount frequency' color'))"
| "apply_operation (AddWavePulse worldX worldY radius intensity frequency' color' angle spreadAngle) w =
     addWavePulse w worldX worldY radius intensity frequency' color' angle spreadAngle"
| "apply_operation (Update deltaTime) w = Some (update deltaTime w)"
| "apply_operation Clear w = Some (Inr (clear w))"

fun run :: "operation list \<Rightarrow> WaveField \<Rightarrow> (error + WaveField) option" where
  "run [] w = Some (Inr w)"
| "run (operation # operations) w =
     (case apply_operation operation w of
        None \<Rightarrow> None
      | Some (Inl e) \<Rightarrow> Some (Inl e)
      | Some (Inr w') \<Rightarrow> run operations w')"

text \<open>The bounds of the energy, and a field within them that decays.\<close>

definition energy_bounded :: "Cell \<Rightarrow> bool" where
  "energy_bounded c = (0 \<le> energy c \<and> energy c \<le> 1)"

definition field_bounded :: "WaveField \<Rightarrow> bool" where
  "field_bounded w = (list_all energy_bounded (grid w) \<and> 0 < decayRate w \<and> decayRate w \<le> 1)"

section \<open>Utils.js\<close>

text \<open>The comparison \<^verbatim>\<open>a < b\<close>, where \<open>b\<close> may be \<^verbatim>\<open>Infinity\<close>.\<close>

fun js_lt :: "real ext \<Rightarrow> real ext \<Rightarrow> bool" where
  "js_lt (Fin a) (Fin b) = (a < b)"
| "js_lt (Fin a) PosInfinity = True"
| "js_lt NegInfinity (Fin b) = True"
| "js_lt NegInfinity PosInfinity = True"
| "js_lt _ _ = False"

text \<open>
  The scale patterns of \<open>snapToScale\<close>, semitones from the root. A scale type that is
  not one of the six keys selects the major scale (\<^verbatim>\<open>scales[scaleType] || scales.major\<close>; the
  keys that every object inherits are not scale types).
\<close>

definition scales :: "(string \<times> real list) list" where
  "scales =
     [(''major'', [0, 2, 4, 5, 7, 9, 11]),
      (''minor'', [0, 2, 3, 5, 7, 8, 10]),
      (''pentatonic'', [0, 2, 4, 7, 9]),
      (''minorPentatonic'', [0, 3, 5, 7, 10]),
      (''harmonicMinor'', [0, 2, 3, 5, 7, 8, 11]),
      (''chromatic'', [0, 1, 2, 3, 4, 5, 6, 7, 8, 9, 10, 11])]"

text \<open>
  One round of the search loop: the note of the pattern, then the same note an octave
  lower, each taken when strictly closer than the closest so far.
\<close>

definition closest_step :: "real \<Rightarrow> real \<Rightarrow> real ext \<times> real \<Rightarrow> real ext \<times> real" where
  "closest_step semitonesInOctave note s =
     (case s of (minDistance, closestNote) \<Rightarrow>
        let distance = \<bar>semitonesInOctave - note\<bar>;
            s1 = (if js_lt (Fin distance) minDistance then (Fin distance, note)
                  else (minDistance, closestNote));
            lowerDistance = \<bar>semitonesInOctave - (note - 12)\<bar>
        in if js_lt (Fin lowerDistance) (fst s1) then (Fin lowerDistance, note - 12) else s1)"

text \<open>
  \<^verbatim>\<open>snapToScale(frequency, scaleType)\<close> for a positive frequency; \<^verbatim>\<open>Math.log2\<close> is
  \<open>log 2\<close> and \<^verbatim>\<open>Math.pow(2, y)\<close> is \<open>2 powr y\<close>.
\<close>

definition snapToScale :: "real \<Rightarrow> string \<Rightarrow> real" where
  "snapToScale frequency' scaleType =
     (let baseFreq = 440;
          scalePattern =
            (case map_of scales scaleType of
               Some pattern \<Rightarrow> pattern
             | None \<Rightarrow> [0, 2, 4, 5, 7, 9, 11]);
          semitones = 12 * log 2 (frequency' / baseFreq);
          octave = \<lfloor>semitones / 12\<rfloor>;
          semitonesInOctave = js_rem (js_rem semitones 12 + 12) 12;
          closestNote = snd (fold (closest_step semitonesInOctave) scalePattern (PosInfinity, 0))
      in baseFreq * 2 powr ((of_int octave * 12 + closestNote) / 12))"

text \<open>
  What the search loop maintains: once a candidate has been seen, \<open>closestNote\<close> is one
  of the candidates seen, \<open>minDistance\<close> is its distance, and no candidate seen is closer.
\<close>

definition closest_inv :: "real \<Rightarrow> real set \<Rightarrow> real ext \<times> real \<Rightarrow> bool" where
  "closest_inv sio C s =
     ((C = {} \<and> fst s = PosInfinity)
      \<or> (snd s \<in> C \<and> fst s = Fin \<bar>sio - snd s\<bar> \<and> (\<forall>c\<in>C. \<bar>sio - snd s\<bar> \<le> \<bar>sio - c\<bar>)))"

section \<open>Emitter.js\<close>

text \<open>
  The emitter object; \<open>id'\<close> is its \<^verbatim>\<open>id\<close>, and \<open>onEmitWave\<close> tells whether a callback
  function is registered. The wave object built by \<open>emitWave\<close>.
\<close>

record Emitter =
  id' :: string
  type :: string
  playerId :: real
  position :: "real \<times> real"
  active :: bool
  angle :: real
  spreadAngle :: real
  waveSpeed :: real
  waveDensity :: real
  lastEmitTime :: real
  baseColor :: "real \<times> real \<times> real"
  pulseSize :: real
  maxRadius :: real
  baseFrequency :: real
  scaleType :: string
  oscillatorType :: string
  filterType :: string
  filterFrequency :: real
  filterQ :: real
  reverbAmount :: real
  gain :: real
  onEmitWave :: bool

record Wave =
  emitterId :: string
  playerId :: real
  type :: string
  position :: "real \<times> real"
  angle :: real
  spreadAngle :: real
  radius :: real
  maxRadius :: real
  speed :: real
  intensity :: real
  frequency :: real
  color :: "real \<times> real \<times> real"
  oscillatorType :: string
  filterType :: string
  filterFrequency :: real
  filterQ :: real
  reverbAmount :: real
  gain :: real
  createdAt :: real

text \<open>
  \<^verbatim>\<open>emitWave(intensity = 1.0, timeStep)\<close>: an omitted argument is \<open>None\<close>, \<open>random\<close> is the
  value of \<^verbatim>\<open>Math.random()\<close> and \<open>now\<close> that of \<^verbatim>\<open>performance.now()\<close>. The result is the
  returned wave (\<^verbatim>\<open>null\<close> is \<open>None\<close>), the emitter afterwards and the waves passed to the
  callback. The callback is taken not to assign to the wave or the emitter, as the one
  of the game, which stores the wave in its collections.
\<close>

definition emitWave ::
  "Emitter \<Rightarrow> real option \<Rightarrow> real option \<Rightarrow> real \<Rightarrow> real \<Rightarrow> Wave option \<times> Emitter \<times> Wave list" where
  "emitWave e intensity' timeStep' random now =
     (if \<not> active e then (None, e, [])
      else
        let frequency0 = baseFrequency e * (0.98 + random * 0.04);
            frequency1 =
              (if scaleType e \<noteq> ''chromatic'' then snapToScale frequency0 (scaleType e)
               else frequency0);
            intensity1 = (case intensity' of None \<Rightarrow> 1 | Some i \<Rightarrow> i);
            wave =
              \<lparr>emitterId = id' e, playerId = Emitter.playerId e, type = Emitter.type e,
               position = Emitter.position e, angle = Emitter.angle e,
               spreadAngle = Emitter.spreadAngle e, radius = 10,
               maxRadius = Emitter.maxRadius e, speed = waveSpeed e, intensity = intensity1,
               frequency = frequency1, color = baseColor e,
               oscillatorType = Emitter.oscillatorType e, filterType = Emitter.filterType e,
               filterFrequency = Emitter.filterFrequency e, filterQ = Emitter.filterQ e,
               reverbAmount = Emitter.reverbAmount e, gain = Emitter.gain e * intensity1,
               createdAt =
                 (case timeStep' of
                    None \<Rightarrow> now
                  | Some t \<Rightarrow> if t \<noteq> 0 then t else now)\<rparr>
        in (Some wave, e\<lparr>lastEmitTime := createdAt wave\<rparr>,
            if onEmitWave e then [wave] else []))"

text \<open>The thruster emitter of the ship, switched on.\<close>

definition thruster :: Emitter where
  "thruster =
     \<lparr>id' = ''player-thruster'', type = ''thruster'', playerId = 0, position = (400, 300),
      active = True, angle = 0, spreadAngle = 90, waveSpeed = 200, waveDensity = 16,
      lastEmitTime = 0, baseColor = (255, 0, 0), pulseSize = 30, maxRadius = 300,
      baseFrequency = 220, scaleType = ''pentatonic'', oscillatorType = ''sawtooth'',
      filterType = ''lowpass'', filterFrequency = 800, filterQ = 1, reverbAmount = 0.3,
      gain = 0.3, onEmitWave = True\<rparr>"

section \<open>WaveRenderer.js and Game.js: traveling waves\<close>

text \<open>
  The game and the renderer each keep an array of the same wave objects, so the waves
  live in a store, from references to objects, and the arrays hold references.
  \<open>grow\<close> is the two assignments that \<open>updateTravelingWaves\<close> makes to a wave; the
  quotient by \<open>maxRadius\<close> is a quotient by zero only for \<open>maxRadius = 0\<close>.
\<close>

definition grow :: "real \<Rightarrow> Wave \<Rightarrow> Wave" where
  "grow deltaTime wave =
     (let radius1 = radius wave + speed wave * deltaTime;
          distanceFactor = 1 - radius1 / maxRadius wave / 2
      in wave\<lparr>radius := radius1, intensity := max 0 (intensity wave * distanceFactor)\<rparr>)"

text \<open>
  \<^verbatim>\<open>updateTravelingWaves(deltaTime)\<close>: the filter over the renderer's array, which
  changes each wave it visits; the result is the new array and the store.
\<close>

fun updateTravelingWaves ::
  "real \<Rightarrow> nat list \<Rightarrow> (nat \<Rightarrow> Wave) \<Rightarrow> nat list \<times> (nat \<Rightarrow> Wave)" where
  "updateTravelingWaves deltaTime [] store = ([], store)"
| "updateTravelingWaves deltaTime (ref # refs) store =
     (let wave = grow deltaTime (store ref);
          store1 = store(ref := wave);
          keep = (radius wave < maxRadius wave \<and> intensity wave > 0.01);
          (kept, store2) = updateTravelingWaves deltaTime refs store1
      in (if keep then ref # kept else kept, store2))"

text \<open>
  The part of \<open>Game.update\<close> that deals with the waves: the cap of \<open>deltaTime\<close>, the
  renderer's \<open>updateTravelingWaves\<close>, the waves of the game's array that are passed to
  \<open>addWavePulse\<close> (in order), and the clean up of the game's array. The ship, the audio
  and the field do not touch the wave objects or the two arrays.
\<close>

record Game =
  waves :: "nat \<Rightarrow> Wave"
  travelingWaves :: "nat list"
  waveRenderer_travelingWaves :: "nat list"

definition Game_update :: "real \<Rightarrow> Game \<Rightarrow> Game \<times> nat list" where
  "Game_update deltaTime g =
     (let dt = min deltaTime 0.1;
          (kept, waves1) = updateTravelingWaves dt (waveRenderer_travelingWaves g) (waves g);
          pulses = filter (\<lambda>ref. intensity (waves1 ref) > 0.05) (travelingWaves g);
          travelingWaves1 =
            filter (\<lambda>ref. radius (waves1 ref) \<le> maxRadius (waves1 ref)
                          \<and> intensity (waves1 ref) > 0.01) (travelingWaves g)
      in (g\<lparr>waves := waves1, travelingWaves := travelingWaves1,
             waveRenderer_travelingWaves := kept\<rparr>, pulses))"

text \<open>The removal predicate: \<open>radius >= maxRadius\<close> or \<open>intensity <= 0.01\<close>.\<close>

definition removal :: "Wave \<Rightarrow> bool" where
  "removal wave = (radius wave \<ge> maxRadius wave \<or> intensity wave \<le> 0.01)"

text \<open>
  A wave about to pass its maximal radius, held by the game and by the renderer.
\<close>

definition late_wave :: Wave where
  "late_wave =
     \<lparr>emitterId = ''player-weapon'', playerId = 0, type = ''weapon'', position = (400, 300),
      angle = 0, spreadAngle = 20, radius = 290, maxRadius = 300, speed = 200,
      intensity = 1, frequency = 330, color = (255, 0, 0), oscillatorType = ''sawtooth'',
      filterType = ''lowpass'', filterFrequency = 1200, filterQ = 1, reverbAmount = 0.3,
      gain = 0.5, createdAt = 1000\<rparr>"

definition late_wave_game :: Game where
  "late_wave_game =
     \<lparr>waves = (\<lambda>ref. late_wave), travelingWaves = [0], waveRenderer_travelingWaves = [0]\<rparr>"

section \<open>Properties\<close>

subsection \<open>Loops\<close>

lemma fold_err_append:
  "fold_err f (xs @ ys) s = (case fold_err f xs s of Inl e \<Rightarrow> Inl e | Inr s' \<Rightarrow> fold_err f ys s')"
  by (induction xs arbitrary: s) (auto split: sum.splits)

lemma fold_err_map: "fold_err f (map g xs) s = fold_err (\<lambda>x. f (g x)) xs s"
  by (induction xs arbitrary: s) (auto split: sum.splits)

lemma fold_err_rows:
  "fold_err (\<lambda>y. fold_err (\<lambda>x. h (y * n + x)) [0..<n]) [0..<m] s = fold_err h [0..<m * n] s"
proof (induction m arbitrary: s)
  case 0
  then show ?case by simp
next
  case (Suc m)
  have row: "fold_err (\<lambda>x. h (m * n + x)) [0..<n] t = fold_err h [m * n..<m * n + n] t" for t
  proof -
    have "[m * n..<m * n + n] = map (\<lambda>x. m * n + x) [0..<n]"
      by (simp add: map_add_upt add.commute)
    then show ?thesis by (simp add: fold_err_map)
  qed
  have rows: "[0..<Suc m * n] = [0..<m * n] @ [m * n..<m * n + n]"
    by (metis add.commute le_add1 mult_Suc upt_add_eq_append zero_le)
  have "fold_err (\<lambda>y. fold_err (\<lambda>x. h (y * n + x)) [0..<n]) [0..<Suc m] s
        = (case fold_err h [0..<m * n] s of Inl e \<Rightarrow> Inl e
           | Inr s' \<Rightarrow> fold_err (\<lambda>x. h (m * n + x)) [0..<n] s')"
    by (simp add: fold_err_append Suc.IH split: sum.splits)
  also have "\<dots> = fold_err h ([0..<m * n] @ [m * n..<m * n + n]) s"
    by (simp add: fold_err_append row split: sum.splits)
  finally show ?case by (simp only: rows)
qed

lemma fold_err_inv:
  assumes "\<And>x s s'. P s \<Longrightarrow> f x s = Inr s' \<Longrightarrow> P s'"
  shows "P s \<Longrightarrow> fold_err f xs s = Inr s' \<Longrightarrow> P s'"
proof (induction xs arbitrary: s)
  case Nil
  then show ?case by simp
next
  case (Cons x xs)
  then show ?case using assms by (auto split: sum.splits)
qed

subsection \<open>update, cell by cell\<close>

lemma fold_update_cell:
  assumes "length og = length ng" and "k \<le> length og"
  shows "fold_err (update_cell dt dr) [0..<k] (og, ng)
         = Inr (map (advance_phase dt) (take k og) @ drop k og,
                map (\<lambda>(c, c'). decay_cell dt dr c c') (zip (take k og) (take k ng)) @ drop k ng)"
  using assms(2)
proof (induction k)
  case 0
  then show ?case by simp
next
  case (Suc k)
  then have k: "k < length og" "k < length ng" using assms(1) by auto
  have 1: "(map (advance_phase dt) (take k og) @ drop k og) ! k = og ! k"
    using k by (simp add: nth_append)
  have 2: "(map (\<lambda>(c, c'). decay_cell dt dr c c') (zip (take k og) (take k ng)) @ drop k ng) ! k = ng ! k"
    using k by (simp add: nth_append)
  have 3: "(map (advance_phase dt) (take k og) @ drop k og)[k := v]
           = map (advance_phase dt) (take k og) @ v # drop (Suc k) og" for v
    using k by (simp add: list_update_append Cons_nth_drop_Suc [symmetric])
  have 4: "(map (\<lambda>(c, c'). decay_cell dt dr c c') (zip (take k og) (take k ng)) @ drop k ng)[k := v]
           = map (\<lambda>(c, c'). decay_cell dt dr c c') (zip (take k og) (take k ng)) @ v # drop (Suc k) ng" for v
    using k by (simp add: list_update_append Cons_nth_drop_Suc [symmetric])
  have "fold_err (update_cell dt dr) [0..<Suc k] (og, ng)
        = update_cell dt dr k (map (advance_phase dt) (take k og) @ drop k og,
             map (\<lambda>(c, c'). decay_cell dt dr c c') (zip (take k og) (take k ng)) @ drop k ng)"
    using Suc by (simp add: fold_err_append split: sum.splits)
  also have "\<dots> = Inr (map (advance_phase dt) (take (Suc k) og) @ drop (Suc k) og,
                map (\<lambda>(c, c'). decay_cell dt dr c c') (zip (take (Suc k) og) (take (Suc k) ng)) @ drop (Suc k) ng)"
    using k by (simp add: update_cell_def Let_def 1 2 3 4 take_Suc_conv_app_nth)
  finally show ?case .
qed

lemma update_grids_wf:
  assumes "wf_field w"
  shows "update_grids dt w
         = Inr (map (advance_phase dt) (grid w),
                map (\<lambda>c. decay_cell dt (decayRate w) c c) (grid w))"
proof -
  have copy: "map (\<lambda>cell. cell\<lparr>velocity := (fst (velocity cell), snd (velocity cell))\<rparr>) (grid w) = grid w"
    by (simp add: map_idI)
  have z: "map (\<lambda>(c, c'). decay_cell dt (decayRate w) c c') (zip (grid w) (grid w))
           = map (\<lambda>c. decay_cell dt (decayRate w) c c) (grid w)"
    by (simp add: zip_same_conv_map comp_def)
  show ?thesis
    unfolding update_grids_def copy fold_err_rows
    using assms fold_update_cell [of "grid w" "grid w" "length (grid w)" dt "decayRate w"]
    by (simp add: wf_field_def z)
qed

lemma update_wf:
  assumes "wf_field w"
  shows "update dt w
         = Inr (w\<lparr>timeStep := timeStep w + 1,
                  grid := map (\<lambda>c. decay_cell dt (decayRate w) c c) (grid w)\<rparr>)"
  by (simp add: update_def update_grids_wf [OF assms])

lemma energy_decay_cell:
  "energy (decay_cell dt dr c c') = decay_energy (dr powr (dt * 60)) (energy c)"
  by (simp add: decay_cell_def decay_energy_def Let_def)

lemma phase_decay_cell: "phase (decay_cell dt dr c c') = phase c'"
  by (simp add: decay_cell_def Let_def)


subsection \<open>Decay of the energy\<close>


lemma decay_energy_nonneg: "0 \<le> decay_energy q e"
  by (simp add: decay_energy_def)

lemma decay_energy_le: "0 \<le> e \<Longrightarrow> 0 \<le> q \<Longrightarrow> q \<le> 1 \<Longrightarrow> decay_energy q e \<le> e"
  by (simp add: decay_energy_def mult_left_le)








subsection \<open>The phase\<close>

lemma js_rem_small: "0 \<le> a \<Longrightarrow> a < b \<Longrightarrow> js_rem a b = a"
proof -
  assume a: "0 \<le> a" "a < b"
  then have "\<lfloor>a / b\<rfloor> = 0" by (simp add: floor_eq_iff)
  then show ?thesis using a by (simp add: js_rem_def sgn_if)
qed

lemma excited_field_reached:
  "\<exists>w. new_WaveField 800 600 1 = Inr w \<and> addEnergy w 0 0 (1 / 2) 440 (255, 0, 0) = excited_field"
  by (simp add: new_WaveField_def addEnergy_def getCell_def nth_opt_def initial_cell_def
      excited_field_def blend_color_def js_round_def Let_def)

lemma update_keeps_phase:
  assumes "wf_field w"
  shows "\<exists>w'. update deltaTime w = Inr w' \<and> map phase (grid w') = map phase (grid w)"
  by (simp add: update_wf [OF assms] phase_decay_cell comp_def)

text \<open>
  C1 at a failing input: the field of one cell with energy 0.5, frequency 440 and phase
  0, and \<^verbatim>\<open>update(1/60)\<close>. The loop advances the phase to 11/30 in the cell of the old
  grid, which the call drops; the cell of the grid that the field has afterwards is the
  copy made before the loop, with phase 0 (and the decayed energy 0.49).
\<close>

theorem update_phase_not_advanced:
  "\<exists>oldGrid w. update_grids (1 / 60) excited_field = Inr (oldGrid, grid w)
       \<and> update (1 / 60) excited_field = Inr w
       \<and> map energy (grid excited_field) = [1 / 2]
       \<and> map phase (grid excited_field) = [0]
       \<and> map phase oldGrid = [11 / 30]
       \<and> map phase (grid w) = [0]
       \<and> map energy (grid w) = [49 / 100]"
proof -
  have wf: "wf_field excited_field" by (simp add: wf_field_def excited_field_def)
  have "(11 / 30 :: real) < pi * 2" using pi_ge_two by simp
  then have r: "js_rem (11 / 30) (pi * 2) = 11 / 30" by (simp add: js_rem_small)
  let ?new = "map (\<lambda>c. decay_cell (1 / 60) (decayRate excited_field) c c) (grid excited_field)"
  let ?old = "map (advance_phase (1 / 60)) (grid excited_field)"
  let ?w = "excited_field\<lparr>timeStep := timeStep excited_field + 1, grid := ?new\<rparr>"
  have 1: "update_grids (1 / 60) excited_field = Inr (?old, grid ?w)"
    by (simp add: update_grids_wf [OF wf])
  have 2: "update (1 / 60) excited_field = Inr ?w"
    by (rule update_wf [OF wf])
  have 3: "map energy (grid ?w) = [49 / 100]"
    by (simp add: excited_field_def decay_cell_def Let_def)
  have 4: "map phase (grid ?w) = [0]"
    by (simp add: excited_field_def phase_decay_cell)
  have 5: "map phase (grid excited_field) = [0]"
    and 6: "map energy (grid excited_field) = [1 / 2]"
    by (simp_all add: excited_field_def)
  have 7: "map phase ?old = [11 / 30]"
    using r by (simp add: excited_field_def advance_phase_def)
  show ?thesis
    by (rule exI [of _ ?old], rule exI [of _ ?w]) (simp only: 1 2 3 4 5 6 7)
qed

subsection \<open>The ring of a pulse\<close>

lemma fold_err_total:
  assumes "\<And>x s. P s \<Longrightarrow> \<exists>s'. f x s = Inr s' \<and> P s'"
  shows "P s \<Longrightarrow> \<exists>s'. fold_err f xs s = Inr s' \<and> P s'"
proof (induction xs arbitrary: s)
  case Nil
  then show ?case by simp
next
  case (Cons x xs)
  from assms [OF Cons.prems, of x] obtain s1 where "f x s = Inr s1" "P s1" by blast
  then show ?case using Cons.IH [of s1] by simp
qed


lemma cell_index_less:
  fixes x y :: int and n :: nat
  assumes "0 \<le> x" "x < int n" "0 \<le> y" "y < int n"
  shows "nat (y * int n + x) < n * n"
proof -
  have "y + 1 \<le> int n" using assms by simp
  then have "(y + 1) * int n \<le> int n * int n" using assms by (simp add: mult_right_mono)
  then have "y * int n + x < int n * int n" using assms by (simp add: algebra_simps)
  then show ?thesis using assms by (simp add: nat_less_iff)
qed

lemma gridToWorld_finite:
  assumes "cellWidth w = Fin cw" "cw \<noteq> 0" "cellHeight w = Fin ch" "ch \<noteq> 0"
  shows "gridToWorld w x y = (Fin (of_int x * cw + cw / 2), Fin (of_int y * ch + ch / 2))"
  using assms by (simp add: gridToWorld_def)

lemma pulse_cell_unfold:
  assumes "\<not> (x < 0 \<or> x \<ge> int (resolution w) \<or> y < 0 \<or> y \<ge> int (resolution w))"
    and "gridToWorld w x y = (Fin a, Fin b)"
    and "d = sqrt ((a - worldX) * (a - worldX) + (b - worldY) * (b - worldY))"
    and "dir = direction spreadAngle0 angle0 (b - worldY) (a - worldX)"
    and "wt = radius0 * 0.2" and "dff = \<bar>d - radius0\<bar>"
  shows "pulse_cell worldX worldY radius0 intensity0 fr col angle0 spreadAngle0 vX vY y x w
         = (if d \<le> radius0 \<and> fst dir \<and> dff < wt then
              (case nth_opt (grid w) (nat (y * int (resolution w) + x)) of
                 None \<Rightarrow> Inl TypeError
               | Some cell \<Rightarrow>
                   Inr (w\<lparr>grid := (grid w)[nat (y * int (resolution w) + x) :=
                          inject cell (intensity0 * (1 - dff / wt)) (snd dir) vX vY fr col
                            (timeStep w)]\<rparr>))
            else Inr w)"
  unfolding pulse_cell_def Let_def assms(2-6) case_prod_beta
  using assms(1) by (simp only: if_False fst_conv snd_conv ext.case split: if_splits) blast

lemma pulse_cell_step:
  assumes "geometry n cw ch w" "0 < cw" "0 < ch"
  shows "\<exists>w'. pulse_cell worldX worldY radius0 intensity0 fr col angle0 spreadAngle0 vX vY y x w = Inr w'
              \<and> geometry n cw ch w'
              \<and> (grid w' = grid w
                   \<or> (0 \<le> x \<and> x < int n \<and> 0 \<le> y \<and> y < int n
                      \<and> in_ring w worldX worldY radius0 x y
                      \<and> (\<exists>c. grid w' = (grid w)[nat (y * int n + x) := c])))"
proof (cases "x < 0 \<or> x \<ge> int (resolution w) \<or> y < 0 \<or> y \<ge> int (resolution w)")
  case True
  then show ?thesis using assms(1) by (simp add: pulse_cell_def)
next
  case False
  have inv: "resolution w = n" "cellWidth w = Fin cw" "cellHeight w = Fin ch"
    "length (grid w) = n * n"
    using assms(1) by (simp_all add: geometry_def)
  let ?i = "nat (y * int n + x)"
  have xy: "0 \<le> x" "x < int n" "0 \<le> y" "y < int n" using False inv by auto
  have i: "?i < length (grid w)" using cell_index_less [OF xy] inv by simp
  define a b where "a = of_int x * cw + cw / 2" and "b = of_int y * ch + ch / 2"
  have g: "gridToWorld w x y = (Fin a, Fin b)"
    using gridToWorld_finite [OF inv(2) _ inv(3)] assms by (simp add: a_def b_def)
  define d where "d = sqrt ((a - worldX) * (a - worldX) + (b - worldY) * (b - worldY))"
  define dir where "dir = direction spreadAngle0 angle0 (b - worldY) (a - worldX)"
  define wt where "wt = radius0 * 0.2"
  define dff where "dff = \<bar>d - radius0\<bar>"
  define c where "c = inject (grid w ! ?i) (intensity0 * (1 - dff / wt)) (snd dir) vX vY fr col (timeStep w)"
  have p: "pulse_cell worldX worldY radius0 intensity0 fr col angle0 spreadAngle0 vX vY y x w
         = (if d \<le> radius0 \<and> fst dir \<and> dff < wt then Inr (w\<lparr>grid := (grid w)[?i := c]\<rparr>) else Inr w)"
    using i by (simp add: pulse_cell_unfold [OF False g d_def dir_def wt_def dff_def] inv nth_opt_def c_def)
  show ?thesis
  proof (cases "d \<le> radius0 \<and> fst dir \<and> dff < wt")
    case False
    then show ?thesis using p assms(1) by auto
  next
    case True
    have cd: "centre_distance w x y worldX worldY = Fin d"
      by (simp add: centre_distance_def g d_def power2_eq_square)
    have "\<bar>d - radius0\<bar> < 0.2 * radius0 \<and> d \<le> radius0"
      using True unfolding dff_def wt_def by linarith
    then have "in_ring w worldX worldY radius0 x y"
      unfolding in_ring_def cd by (simp only: ext.case)
    moreover have "geometry n cw ch (w\<lparr>grid := (grid w)[?i := c]\<rparr>)"
      using inv by (simp add: geometry_def)
    ultimately show ?thesis using p True xy by auto
  qed
qed



lemma scan_range_finite: "scan_range (Fin c) (Fin r) = Some [c - r..c + r]"
  by (simp add: scan_range_def)

lemma addWavePulse_total:
  assumes "geometry n cw ch w" "0 < cw" "0 < ch" "P w"
    and step: "\<And>angle' vX vY y x s. geometry n cw ch s \<Longrightarrow> P s \<Longrightarrow>
       \<exists>s'. pulse_cell worldX worldY radius0 intensity0 fr col angle' spreadAngle0 vX vY y x s = Inr s'
            \<and> geometry n cw ch s' \<and> P s'"
  shows "\<exists>w'. addWavePulse w worldX worldY radius0 intensity0 fr col angle0 spreadAngle0 = Some (Inr w')
              \<and> geometry n cw ch w' \<and> P w'"
proof -
  define Q where "Q = (\<lambda>s. geometry n cw ch s \<and> P s)"
  define angle' where "angle' = js_rem (js_rem angle0 (2 * pi) + 2 * pi) (2 * pi)"
  define f where "f = (\<lambda>y. fold_err
      (pulse_cell worldX worldY radius0 intensity0 fr col angle' spreadAngle0
         (cos angle' * 2) (sin angle' * 2) y)
      [\<lfloor>worldX / cw\<rfloor> - \<lceil>radius0 / cw\<rceil>..\<lfloor>worldX / cw\<rfloor> + \<lceil>radius0 / cw\<rceil>])"
  let ?ys = "[\<lfloor>worldY / ch\<rfloor> - \<lceil>radius0 / cw\<rceil>..\<lfloor>worldY / ch\<rfloor> + \<lceil>radius0 / cw\<rceil>]"
  have cell: "\<exists>s'. pulse_cell worldX worldY radius0 intensity0 fr col angle' spreadAngle0
                 (cos angle' * 2) (sin angle' * 2) y x s = Inr s' \<and> Q s'" if "Q s" for y x s
    using step [of s angle' "cos angle' * 2" "sin angle' * 2" y x] that by (simp add: Q_def)
  have row: "\<exists>s'. f y s = Inr s' \<and> Q s'" if "Q s" for y s
    unfolding f_def by (rule fold_err_total [where P = Q, OF _ that]) (rule cell)
  have dims: "cellWidth w = Fin cw" "cellHeight w = Fin ch"
    using assms(1) by (simp_all add: geometry_def)
  have a: "addWavePulse w worldX worldY radius0 intensity0 fr col angle0 spreadAngle0
        = Some (if ?ys = [] then Inr w else fold_err f ?ys w)"
    using dims assms(2,3)
    by (simp add: addWavePulse_def worldToGrid_def scan_range_finite Let_def f_def angle'_def)
  have "Q w" using assms(1,4) by (simp add: Q_def)
  then obtain w' where "(if ?ys = [] then Inr w else fold_err f ?ys w) = Inr w'" "Q w'"
    using fold_err_total [where P = Q and f = f, OF row, of w ?ys] by (cases "?ys = []") auto
  then show ?thesis using a by (auto simp add: Q_def)
qed



lemma js_rem_zero: "js_rem 0 b = 0"
  by (simp add: js_rem_def)

lemma js_rem_self: "0 < b \<Longrightarrow> js_rem b b = 0"
  by (simp add: js_rem_def)

lemma sqrt_2500: "sqrt 2500 = 50"
  using real_sqrt_abs [of 50] by simp

lemma sqrt_5000: "\<not> sqrt 5000 \<le> 50"
  using real_less_rsqrt [of 50 5000] by simp

lemma upto_m1_1: "[-1..1] = [-1, 0, 1 :: int]"
  by (simp add: upto_rec1)

text \<open>
  The ring is reached: on the empty field of 2 by 2 cells of size 50, the pulse of radius
  50 and intensity 1 from the centre (25, 25) of the first cell fills the two cells whose
  centres are at distance 50, and leaves the first cell (distance 0) and the last
  (distance \<open>sqrt 5000\<close>) empty.
\<close>

lemma addWavePulse_example:
  "\<exists>w w'. new_WaveField 100 100 2 = Inr w
     \<and> addWavePulse w 25 25 50 1 440 (255, 0, 0) 0 360 = Some (Inr w')
     \<and> map energy (grid w') = [0, 1, 1, 0]"
proof -
  let ?w = "\<lparr>width = 100, height = 100, resolution = 2, cellWidth = Fin 50, cellHeight = Fin 50,
         grid = [initial_cell, initial_cell, initial_cell, initial_cell],
         decayRate = 0.98, propagationSpeed = 0.3, timeStep = 0, maxVelocity = 5\<rparr>"
  have four: "replicate (2 * 2) initial_cell = [initial_cell, initial_cell, initial_cell, initial_cell]"
    by (simp add: numeral_eq_Suc)
  have w: "new_WaveField 100 100 2 = Inr ?w"
    unfolding new_WaveField_def four by simp
  have a: "js_rem (js_rem 0 (2 * pi) + 2 * pi) (2 * pi) = 0"
    by (simp add: js_rem_zero js_rem_self)
  have "\<exists>w'. addWavePulse ?w 25 25 50 1 440 (255, 0, 0) 0 360 = Some (Inr w')
     \<and> map energy (grid w') = [0, 1, 1, 0]"
    unfolding addWavePulse_def a Let_def
    by (simp add: worldToGrid_def scan_range_def upto_m1_1 pulse_cell_def gridToWorld_def
        direction_def nth_opt_def inject_def initial_cell_def blend_color_def js_round_def
        sqrt_2500 sqrt_5000 Let_def)
  then obtain w' where "addWavePulse ?w 25 25 50 1 440 (255, 0, 0) 0 360 = Some (Inr w')"
    and "map energy (grid w') = [0, 1, 1, 0]"
    by (elim exE conjE)
  with w show ?thesis by (intro exI [of _ ?w] exI [of _ w'] conjI)
qed

subsection \<open>Bounds of the energy\<close>

lemma list_all_update: "list_all P xs \<Longrightarrow> P v \<Longrightarrow> list_all P (xs[i := v])"
  by (induction xs arbitrary: i) (auto split: nat.splits)

lemma energy_inject:
  "energy (inject cell ci df vX vY fr col ts) = min 1 (energy cell + ci)"
  by (simp add: inject_def Let_def)

lemma inject_bounded:
  assumes "energy_bounded cell" "0 \<le> ci"
  shows "energy_bounded (inject cell ci df vX vY fr col ts)"
  using assms by (simp add: energy_bounded_def energy_inject)

lemma new_WaveField_bounded: "new_WaveField wd ht res = Inr w \<Longrightarrow> field_bounded w"
  by (auto simp add: new_WaveField_def field_bounded_def energy_bounded_def initial_cell_def
      list_all_iff split: if_splits)

lemma clear_bounded: "field_bounded w \<Longrightarrow> field_bounded (clear w)"
  by (simp add: clear_def field_bounded_def energy_bounded_def list_all_iff)

lemma addEnergy_bounded:
  assumes "field_bounded w" "0 \<le> amount"
  shows "field_bounded (addEnergy w gridX gridY amount fr col)"
proof (cases "getCell w gridX gridY")
  case None
  then show ?thesis using assms by (simp add: addEnergy_def)
next
  case (Some cell)
  then have "cell \<in> set (grid w)"
    by (auto simp add: getCell_def nth_opt_def split: if_splits)
  then have c: "energy_bounded cell" using assms(1) by (simp add: field_bounded_def list_all_iff)
  define cell1 where "cell1 = (if amount > 0.05 then
                   let blendFactor = amount / (energy cell + amount)
                   in cell\<lparr>Cell.frequency := Cell.frequency cell * (1 - blendFactor) + fr * blendFactor,
                           Cell.color := blend_color (Cell.color cell) col blendFactor\<rparr>
                 else cell)"
  have a: "addEnergy w gridX gridY amount fr col
      = w\<lparr>grid := (grid w)[nat (gridY * int (resolution w) + gridX) :=
               cell1\<lparr>energy := min 1 (energy cell + amount), lastActive := timeStep w\<rparr>]\<rparr>"
    using Some by (simp add: addEnergy_def Let_def cell1_def)
  have "energy_bounded (cell1\<lparr>energy := min 1 (energy cell + amount), lastActive := timeStep w\<rparr>)"
    using c assms(2) by (simp add: energy_bounded_def)
  then show ?thesis
    using assms(1) unfolding a by (simp add: field_bounded_def list_all_update)
qed

lemma pulse_cell_bounded:
  assumes "field_bounded w" "0 \<le> intensity0"
    and "pulse_cell worldX worldY radius0 intensity0 fr col angle0 spreadAngle0 vX vY y x w = Inr w'"
  shows "field_bounded w'"
proof (cases "x < 0 \<or> x \<ge> int (resolution w) \<or> y < 0 \<or> y \<ge> int (resolution w)")
  case True
  then show ?thesis using assms by (simp add: pulse_cell_def)
next
  case False
  show ?thesis
  proof (cases "\<exists>a b. gridToWorld w x y = (Fin a, Fin b)")
    case nonfinite: False
    obtain p q where pq: "gridToWorld w x y = (p, q)" by (cases "gridToWorld w x y")
    have "pulse_cell worldX worldY radius0 intensity0 fr col angle0 spreadAngle0 vX vY y x w = Inr w"
      using nonfinite False pq by (cases p; cases q) (simp_all add: pulse_cell_def)
    then show ?thesis using assms by simp
  next
    case True
    then obtain a b where g: "gridToWorld w x y = (Fin a, Fin b)" by blast
    define d where "d = sqrt ((a - worldX) * (a - worldX) + (b - worldY) * (b - worldY))"
    define dir where "dir = direction spreadAngle0 angle0 (b - worldY) (a - worldX)"
    define wt where "wt = radius0 * 0.2"
    define dff where "dff = \<bar>d - radius0\<bar>"
    note p = pulse_cell_unfold [OF False g d_def dir_def wt_def dff_def,
        of intensity0 fr col vX vY]
    show ?thesis
    proof (cases "d \<le> radius0 \<and> fst dir \<and> dff < wt")
      case False
      then have "w' = w" using p assms(3) by auto
      then show ?thesis using assms(1) by simp
    next
      case True
      let ?i = "nat (y * int (resolution w) + x)"
      from True p assms(3) obtain cell where cell: "nth_opt (grid w) ?i = Some cell"
        and w': "w' = w\<lparr>grid := (grid w)[?i := inject cell (intensity0 * (1 - dff / wt))
                       (snd dir) vX vY fr col (timeStep w)]\<rparr>"
        by (cases "nth_opt (grid w) ?i") auto
      from cell have "cell \<in> set (grid w)" by (auto simp add: nth_opt_def split: if_splits)
      then have c: "energy_bounded cell"
        using assms(1) by (simp add: field_bounded_def list_all_iff)
      have "0 \<le> dff" by (simp add: dff_def)
      with True have "0 < wt" "dff / wt < 1" by auto
      then have "0 \<le> intensity0 * (1 - dff / wt)" using assms(2) by simp
      then show ?thesis
        using assms(1) c unfolding w' by (simp add: field_bounded_def list_all_update inject_bounded)
    qed
  qed
qed

lemma addWavePulse_cases:
  assumes "addWavePulse w worldX worldY radius0 intensity0 fr col angle0 spreadAngle0 = Some (Inr w')"
  shows "w' = w \<or> (\<exists>xs ys angle'. fold_err (\<lambda>y. fold_err (pulse_cell worldX worldY radius0 intensity0 fr col angle' spreadAngle0
                           (cos angle' * 2) (sin angle' * 2) y) xs) ys w = Inr w')"
proof (cases "scan_range (snd (worldToGrid w (Fin worldX) (Fin worldY))) (js_ceil (js_div (Fin radius0) (cellWidth w)))")
  case None
  then show ?thesis using assms by (simp add: addWavePulse_def Let_def)
next
  case ys: (Some ys)
  show ?thesis
  proof (cases "ys = []")
    case True
    then show ?thesis using assms ys by (simp add: addWavePulse_def Let_def)
  next
    case False
    show ?thesis
    proof (cases "scan_range (fst (worldToGrid w (Fin worldX) (Fin worldY))) (js_ceil (js_div (Fin radius0) (cellWidth w)))")
      case None
      then show ?thesis using assms ys False by (simp add: addWavePulse_def Let_def)
    next
      case (Some xs)
      then have "fold_err (\<lambda>y. fold_err (pulse_cell worldX worldY radius0 intensity0 fr col
           (js_rem (js_rem angle0 (2 * pi) + 2 * pi) (2 * pi)) spreadAngle0
           (cos (js_rem (js_rem angle0 (2 * pi) + 2 * pi) (2 * pi)) * 2)
           (sin (js_rem (js_rem angle0 (2 * pi) + 2 * pi) (2 * pi)) * 2) y) xs) ys w = Inr w'"
        using assms ys False by (simp add: addWavePulse_def Let_def)
      then show ?thesis by blast
    qed
  qed
qed

lemma addWavePulse_bounded:
  assumes "field_bounded w" "0 \<le> intensity0"
    and "addWavePulse w worldX worldY radius0 intensity0 fr col angle0 spreadAngle0 = Some (Inr w')"
  shows "field_bounded w'"
proof -
  have inner: "field_bounded s'"
    if "field_bounded s"
      "fold_err (pulse_cell worldX worldY radius0 intensity0 fr col angle' spreadAngle0 vX vY y) xs s = Inr s'"
    for angle' vX vY y xs s s'
    by (rule fold_err_inv [where P = field_bounded, OF _ that(1) that(2)])
       (rule pulse_cell_bounded [OF _ assms(2)])
  have outer: "field_bounded s'"
    if "field_bounded s"
      "fold_err (\<lambda>y. fold_err (pulse_cell worldX worldY radius0 intensity0 fr col angle' spreadAngle0 vX vY y) xs) ys s = Inr s'"
    for angle' vX vY xs ys s s'
    by (rule fold_err_inv [where P = field_bounded, OF _ that(1) that(2)]) (rule inner)
  from addWavePulse_cases [OF assms(3)] show ?thesis using assms(1) outer by blast
qed

lemma powr_decay_le_one:
  fixes dr dt :: real
  assumes "0 < dr" "dr \<le> 1" "0 \<le> dt"
  shows "0 \<le> dr powr (dt * 60) \<and> dr powr (dt * 60) \<le> 1"
  using assms by (simp add: powr_le1)

lemma decay_cell_bounded:
  assumes "energy_bounded c" "0 < dr" "dr \<le> 1" "0 \<le> dt"
  shows "energy_bounded (decay_cell dt dr c c')"
proof -
  have q: "0 \<le> dr powr (dt * 60)" "dr powr (dt * 60) \<le> 1"
    using powr_decay_le_one [OF assms(2,3,4)] by simp_all
  have "decay_energy (dr powr (dt * 60)) (energy c) \<le> energy c"
    using decay_energy_le [OF _ q] assms(1) by (simp add: energy_bounded_def)
  then show ?thesis
    using assms(1) by (simp add: energy_bounded_def energy_decay_cell decay_energy_nonneg)
qed

lemma update_cell_bounded:
  assumes "list_all energy_bounded og \<and> list_all energy_bounded ng" "0 < dr" "dr \<le> 1" "0 \<le> dt"
    and "update_cell dt dr i (og, ng) = Inr (og', ng')"
  shows "list_all energy_bounded og' \<and> list_all energy_bounded ng'"
proof -
  from assms(5) have i: "i < length og" "i < length ng"
    and og': "og' = og[i := advance_phase dt (og ! i)]"
    and ng': "ng' = ng[i := decay_cell dt dr (og ! i) (ng ! i)]"
    by (auto simp add: update_cell_def Let_def split: if_splits)
  have c: "energy_bounded (og ! i)" using assms(1) i by (simp add: list_all_length)
  then have "energy_bounded (advance_phase dt (og ! i))"
    by (simp add: advance_phase_def energy_bounded_def)
  moreover have "energy_bounded (decay_cell dt dr (og ! i) (ng ! i))"
    by (rule decay_cell_bounded [OF c assms(2,3,4)])
  ultimately show ?thesis using assms(1) og' ng' by (simp add: list_all_update)
qed

lemma update_bounded:
  assumes "field_bounded w" "0 \<le> dt" "update dt w = Inr w'"
  shows "field_bounded w'"
proof -
  define P where "P = (\<lambda>gs :: Cell list \<times> Cell list.
      list_all energy_bounded (fst gs) \<and> list_all energy_bounded (snd gs))"
  have dr: "0 < decayRate w" "decayRate w \<le> 1" using assms(1) by (simp_all add: field_bounded_def)
  have step: "P s'" if "P s" "update_cell dt (decayRate w) i s = Inr s'" for i s s'
    using update_cell_bounded [OF _ dr assms(2), of "fst s" "snd s" i "fst s'" "snd s'"] that
    by (simp add: P_def)
  have inner: "P s'"
    if "P s" "fold_err (\<lambda>x. update_cell dt (decayRate w) (y * resolution w + x)) xs s = Inr s'"
    for y xs s s'
    by (rule fold_err_inv [where P = P, OF _ that(1) that(2)]) (rule step)
  from assms(3) obtain og ng where g: "update_grids dt w = Inr (og, ng)"
    and w': "w' = w\<lparr>timeStep := timeStep w + 1, grid := ng\<rparr>"
    by (auto simp add: update_def split: sum.splits)
  have "P (grid w, map (\<lambda>cell. cell\<lparr>velocity := (fst (velocity cell), snd (velocity cell))\<rparr>) (grid w))"
    using assms(1) by (simp add: P_def field_bounded_def list_all_iff energy_bounded_def)
  then have "P (og, ng)"
    using g unfolding update_grids_def
    by (rule fold_err_inv [where P = P, rotated 1]) (rule inner)
  then show ?thesis using dr by (simp add: w' P_def field_bounded_def)
qed

lemma run_bounded:
  assumes "list_all valid_operation operations" "field_bounded w"
    and "run operations w = Some (Inr w')"
  shows "field_bounded w'"
  using assms
proof (induction operations arbitrary: w)
  case Nil
  then show ?case by simp
next
  case (Cons operation operations)
  from Cons.prems(3) obtain w1 where w1: "apply_operation operation w = Some (Inr w1)"
    and r: "run operations w1 = Some (Inr w')"
    by (auto split: option.splits sum.splits)
  have "field_bounded w1"
  proof (cases operation)
    case (AddEnergy gridX gridY amount fr col)
    then show ?thesis
      using w1 Cons.prems(1,2) addEnergy_bounded [of w amount gridX gridY fr col] by auto
  next
    case (AddWavePulse worldX worldY radius0 intensity0 fr col angle0 spreadAngle0)
    then show ?thesis
      using w1 Cons.prems(1,2) addWavePulse_bounded [of w intensity0 worldX worldY radius0 fr col angle0 spreadAngle0 w1]
      by simp
  next
    case (Update deltaTime)
    then show ?thesis using w1 Cons.prems(1,2) update_bounded [of w deltaTime w1] by simp
  next
    case Clear
    then show ?thesis using w1 Cons.prems(2) by (auto simp add: clear_bounded)
  qed
  then show ?case using Cons.IH [OF _ _ r] Cons.prems(1) by simp
qed

lemma geometry_wf: "geometry n cw ch w \<Longrightarrow> wf_field w"
  by (simp add: geometry_def wf_field_def)

lemma new_WaveField_geometry:
  assumes "new_WaveField wd ht res = Inr w" "0 < res"
  shows "geometry res (wd / real res) (ht / real res) w"
  using assms by (auto simp add: new_WaveField_def geometry_def split: if_splits)

lemma update_geometry:
  assumes "geometry n cw ch w"
  shows "\<exists>w'. update dt w = Inr w' \<and> geometry n cw ch w'"
  using assms by (simp add: update_wf [OF geometry_wf [OF assms]] geometry_def)

lemma addEnergy_geometry:
  assumes "geometry n cw ch w"
  shows "geometry n cw ch (addEnergy w gridX gridY amount fr col)"
  using assms by (simp add: addEnergy_def geometry_def Let_def split: option.splits)

lemma clear_geometry: "geometry n cw ch w \<Longrightarrow> geometry n cw ch (clear w)"
  by (simp add: clear_def geometry_def)

lemma addWavePulse_geometry:
  assumes "geometry n cw ch w" "0 < cw" "0 < ch"
  shows "\<exists>w'. addWavePulse w worldX worldY radius0 intensity0 fr col angle0 spreadAngle0 = Some (Inr w')
              \<and> geometry n cw ch w'"
proof -
  have "\<exists>w'. addWavePulse w worldX worldY radius0 intensity0 fr col angle0 spreadAngle0 = Some (Inr w')
              \<and> geometry n cw ch w' \<and> True"
    using pulse_cell_step [OF _ assms(2,3)]
    by (intro addWavePulse_total [where P = "\<lambda>_. True", OF assms]) blast+
  then show ?thesis by simp
qed

lemma run_returns:
  assumes "geometry n cw ch w" "0 < cw" "0 < ch"
  shows "\<exists>w'. run operations w = Some (Inr w') \<and> geometry n cw ch w'"
  using assms(1)
proof (induction operations arbitrary: w)
  case Nil
  then show ?case by simp
next
  case (Cons operation operations)
  have "\<exists>w1. apply_operation operation w = Some (Inr w1) \<and> geometry n cw ch w1"
  proof (cases operation)
    case (AddEnergy gridX gridY amount fr col)
    then show ?thesis using addEnergy_geometry [OF Cons.prems] by simp
  next
    case (AddWavePulse worldX worldY radius0 intensity0 fr col angle0 spreadAngle0)
    then show ?thesis using addWavePulse_geometry [OF Cons.prems assms(2,3)] by simp
  next
    case (Update deltaTime)
    then show ?thesis using update_geometry [OF Cons.prems] by simp
  next
    case Clear
    then show ?thesis using clear_geometry [OF Cons.prems] by simp
  qed
  then obtain w1 where "apply_operation operation w = Some (Inr w1)" "geometry n cw ch w1"
    by blast
  then show ?case using Cons.IH [of w1] by simp
qed

text \<open>
  C2: after construction and any sequence of \<open>addEnergy\<close> with a nonnegative amount,
  \<open>addWavePulse\<close> with a nonnegative intensity, \<open>update\<close> with a nonnegative
  \<open>deltaTime\<close> and \<open>clear\<close>, every cell's energy is between 0 and 1. The sequence is
  arbitrary, so this holds after each of its calls, after every \<open>update\<close> in particular.
  With a positive width, height and resolution every call of the sequence returns.
\<close>

theorem energy_within_bounds:
  assumes "new_WaveField width' height' resolution' = Inr w0"
    and "list_all valid_operation operations"
  shows "(\<forall>w. run operations w0 = Some (Inr w)
            \<longrightarrow> list_all (\<lambda>cell. 0 \<le> energy cell \<and> energy cell \<le> 1) (grid w))
         \<and> (0 < width' \<and> 0 < height' \<and> 0 < resolution'
            \<longrightarrow> (\<exists>w. run operations w0 = Some (Inr w)))"
proof -
  have "list_all (\<lambda>cell. 0 \<le> energy cell \<and> energy cell \<le> 1) (grid w)"
    if "run operations w0 = Some (Inr w)" for w
    using run_bounded [OF assms(2) new_WaveField_bounded [OF assms(1)] that]
    by (simp add: field_bounded_def energy_bounded_def [abs_def])
  moreover have "\<exists>w. run operations w0 = Some (Inr w)"
    if "0 < width' \<and> 0 < height' \<and> 0 < resolution'"
    using run_returns [OF new_WaveField_geometry [OF assms(1)], of operations] that by auto
  ultimately show ?thesis by blast
qed

theorem energy_within_bounds_witness:
  "\<exists>w0. new_WaveField 800 600 1 = Inr w0
     \<and> list_all valid_operation
         [AddEnergy 0 0 (7 / 10) 440 (255, 0, 0),
          AddWavePulse 400 300 100 1 440 (255, 0, 0) 0 360, Update (1 / 60), Clear]
     \<and> (\<exists>w. run [AddEnergy 0 0 (7 / 10) 440 (255, 0, 0),
                 AddWavePulse 400 300 100 1 440 (255, 0, 0) 0 360, Update (1 / 60), Clear] w0
               = Some (Inr w)
            \<and> list_all (\<lambda>cell. 0 \<le> energy cell \<and> energy cell \<le> 1) (grid w))"
proof -
  let ?ops = "[AddEnergy 0 0 (7 / 10) 440 (255, 0, 0),
          AddWavePulse 400 300 100 1 440 (255, 0, 0) 0 360, Update (1 / 60), Clear]"
  obtain w0 where w0: "new_WaveField 800 600 1 = Inr w0"
    by (simp add: new_WaveField_def)
  have v: "list_all valid_operation ?ops" by simp
  from energy_within_bounds [OF w0 v] show ?thesis using w0 v by auto
qed

subsection \<open>Construction\<close>

text \<open>
  C7 as stated: constructing a field with resolution 0 fails with a configuration error.
  The constructor has no check; at width 800 and height 600 it returns a field.
\<close>

theorem new_WaveField_zero_resolution_not_rejected:
  "new_WaveField 800 600 0
   = Inr \<lparr>width = 800, height = 600, resolution = 0, cellWidth = PosInfinity,
          cellHeight = PosInfinity, grid = [], decayRate = 0.98, propagationSpeed = 0.3,
          timeStep = 0, maxVelocity = 5\<rparr>"
  by (simp add: new_WaveField_def)

text \<open>
  C7, amended: constructing a field with resolution 0 raises no error. It returns a field
  object whose grid is empty, whose resolution is 0 and whose cell dimensions are the
  quotients by zero; every \<open>getCell\<close> on it is \<^verbatim>\<open>null\<close> and \<open>clear\<close> leaves it as it is.
\<close>

theorem new_WaveField_zero_resolution:
  "\<exists>w. new_WaveField wd ht 0 = Inr w \<and> grid w = [] \<and> resolution w = 0
     \<and> cellWidth w = js_div (Fin wd) (Fin 0) \<and> cellHeight w = js_div (Fin ht) (Fin 0)
     \<and> getCell w x y = None \<and> clear w = w"
  by (simp add: new_WaveField_def getCell_def clear_def nth_opt_def)

subsection \<open>clear\<close>

text \<open>
  C8: \<open>clear\<close> sets every cell's energy to 0, frequency to 440, color to [0,0,0] and
  phase to 0, and changes nothing else: the velocity and lastActive of every cell, the
  length of the grid, and the field's timeStep, resolution and other properties are as
  before.
\<close>

theorem clear_frame:
  "map energy (grid (clear w)) = replicate (length (grid w)) 0
   \<and> map Cell.frequency (grid (clear w)) = replicate (length (grid w)) 440
   \<and> map Cell.color (grid (clear w)) = replicate (length (grid w)) (0, 0, 0)
   \<and> map phase (grid (clear w)) = replicate (length (grid w)) 0
   \<and> map velocity (grid (clear w)) = map velocity (grid w)
   \<and> map lastActive (grid (clear w)) = map lastActive (grid w)
   \<and> length (grid (clear w)) = length (grid w)
   \<and> timeStep (clear w) = timeStep w
   \<and> resolution (clear w) = resolution w
   \<and> width (clear w) = width w \<and> height (clear w) = height w
   \<and> cellWidth (clear w) = cellWidth w \<and> cellHeight (clear w) = cellHeight w
   \<and> decayRate (clear w) = decayRate w
   \<and> propagationSpeed (clear w) = propagationSpeed w
   \<and> maxVelocity (clear w) = maxVelocity w"
  by (simp add: clear_def map_replicate_const comp_def)

subsection \<open>Grid and world coordinates\<close>

text \<open>
  C9: on a field with positive cell width and height, over exact arithmetic,
  \<open>worldToGrid\<close> of the centre \<open>gridToWorld gx gy\<close> of a cell is \<open>(gx, gy)\<close>, for all
  integers \<open>gx\<close> and \<open>gy\<close>.
\<close>

theorem worldToGrid_gridToWorld:
  assumes "cellWidth w = Fin cw" and "0 < cw" and "cellHeight w = Fin ch" and "0 < ch"
  shows "worldToGrid w (fst (gridToWorld w gx gy)) (snd (gridToWorld w gx gy))
         = (Fin gx, Fin gy)"
proof -
  have half: "\<lfloor>(of_int k * c + c / 2) / c\<rfloor> = k" if "0 < c" for k :: int and c :: real
  proof -
    have "(of_int k * c + c / 2) / c = of_int k + 1 / 2"
      using that by (simp add: field_simps)
    then show ?thesis by (simp add: floor_unique)
  qed
  show ?thesis
    using assms by (simp add: worldToGrid_def gridToWorld_def half)
qed

theorem worldToGrid_gridToWorld_witness:
  "\<exists>w. new_WaveField 800 600 32 = Inr w
     \<and> worldToGrid w (fst (gridToWorld w 3 (-7))) (snd (gridToWorld w 3 (-7)))
       = (Fin 3, Fin (-7))"
proof -
  obtain w where w: "new_WaveField 800 600 32 = Inr w"
    by (simp add: new_WaveField_def)
  then have "cellWidth w = Fin 25" and "cellHeight w = Fin (75 / 4)"
    by (auto simp add: new_WaveField_def)
  then show ?thesis
    using w worldToGrid_gridToWorld [of w 25 "75 / 4" 3 "-7"] by simp
qed

subsection \<open>snapToScale\<close>

lemma closest_compare_inv:
  assumes "closest_inv sio C s"
  shows "closest_inv sio (insert c C)
           (if js_lt (Fin \<bar>sio - c\<bar>) (fst s) then (Fin \<bar>sio - c\<bar>, c) else s)"
proof (cases "C = {}")
  case True
  then show ?thesis using assms by (simp add: closest_inv_def)
next
  case False
  then have s: "snd s \<in> C" "fst s = Fin \<bar>sio - snd s\<bar>"
    and least: "\<And>c'. c' \<in> C \<Longrightarrow> \<bar>sio - snd s\<bar> \<le> \<bar>sio - c'\<bar>"
    using assms by (auto simp add: closest_inv_def)
  show ?thesis
  proof (cases "\<bar>sio - c\<bar> < \<bar>sio - snd s\<bar>")
    case True
    have "\<bar>sio - c\<bar> \<le> \<bar>sio - c'\<bar>" if "c' \<in> C" for c'
      using least [OF that] True by linarith
    then show ?thesis using True s by (simp add: closest_inv_def)
  next
    case False
    then have "\<bar>sio - snd s\<bar> \<le> \<bar>sio - c\<bar>" by linarith
    then show ?thesis using False s least by (simp add: closest_inv_def)
  qed
qed

lemma closest_step_inv:
  assumes "closest_inv sio C s"
  shows "closest_inv sio (C \<union> {n, n - 12}) (closest_step sio n s)"
proof -
  obtain md cn where s: "s = (md, cn)" by (cases s)
  define s1 where "s1 = (if js_lt (Fin \<bar>sio - n\<bar>) (fst s) then (Fin \<bar>sio - n\<bar>, n) else s)"
  have 1: "closest_inv sio (insert n C) s1"
    unfolding s1_def by (rule closest_compare_inv [OF assms])
  have "closest_step sio n s
        = (if js_lt (Fin \<bar>sio - (n - 12)\<bar>) (fst s1) then (Fin \<bar>sio - (n - 12)\<bar>, n - 12) else s1)"
    by (simp only: closest_step_def s s1_def Let_def prod.case fst_conv)
  moreover have "C \<union> {n, n - 12} = insert (n - 12) (insert n C)" by auto
  ultimately show ?thesis using closest_compare_inv [OF 1, of "n - 12"] by simp
qed

lemma closest_fold_inv:
  "closest_inv sio C s \<Longrightarrow>
   closest_inv sio (C \<union> set pattern \<union> (\<lambda>n. n - 12) ` set pattern)
     (fold (closest_step sio) pattern s)"
proof (induction pattern arbitrary: C s)
  case Nil
  then show ?case by simp
next
  case (Cons n pattern)
  have "C \<union> {n, n - 12} \<union> set pattern \<union> (\<lambda>n. n - 12) ` set pattern
        = C \<union> set (n # pattern) \<union> (\<lambda>n. n - 12) ` set (n # pattern)"
    by auto
  then show ?case
    using Cons.IH [OF closest_step_inv [OF Cons.prems, of n]] by simp
qed

lemma js_rem_wrap:
  assumes "0 < b"
  shows "js_rem (js_rem a b + b) b = a - b * of_int \<lfloor>a / b\<rfloor>"
proof -
  define k where "k = \<lfloor>a / b\<rfloor>"
  define r where "r = a - b * of_int k"
  have r: "0 \<le> r" "r < b"
  proof -
    have "of_int k \<le> a / b" "a / b < of_int k + 1" unfolding k_def by linarith+
    then have "of_int k * b \<le> a" "a < (of_int k + 1) * b"
      using assms by (simp_all add: field_simps)
    then show "0 \<le> r" "r < b" by (simp_all add: r_def algebra_simps)
  qed
  have a: "a = b * of_int k + r" by (simp add: r_def)
  have inner: "js_rem a b = (if 0 \<le> a \<or> r = 0 then r else r - b)"
  proof (cases "0 \<le> a")
    case True
    then show ?thesis using assms by (simp add: js_rem_def sgn_if r_def k_def)
  next
    case False
    then have neg: "a < 0" by simp
    have "\<bar>a\<bar> / \<bar>b\<bar> = - of_int k - r / b" using neg assms a by (simp add: field_simps)
    show ?thesis
    proof (cases "r = 0")
      case True
      then have fl: "\<lfloor>\<bar>a\<bar> / \<bar>b\<bar>\<rfloor> = - k"
        using \<open>\<bar>a\<bar> / \<bar>b\<bar> = - of_int k - r / b\<close> by simp
      have "js_rem a b = - (- a - b * of_int (- k))"
        unfolding js_rem_def fl using neg assms by (simp add: sgn_if)
      also have "\<dots> = r" by (simp add: r_def)
      finally show ?thesis using True by simp
    next
      case False
      then have "0 < r / b" "r / b < 1" using r assms by simp_all
      then have fl: "\<lfloor>\<bar>a\<bar> / \<bar>b\<bar>\<rfloor> = - k - 1"
        using \<open>\<bar>a\<bar> / \<bar>b\<bar> = - of_int k - r / b\<close> by (simp add: floor_eq_iff)
      have "js_rem a b = - (- a - b * of_int (- k - 1))"
        unfolding js_rem_def fl using neg assms by (simp add: sgn_if)
      also have "\<dots> = r - b" by (simp add: r_def algebra_simps)
      finally show ?thesis using False neg by simp
    qed
  qed
  have outer: "js_rem (x + b) b = (if x + b = b then 0 else x + b - (if 0 \<le> x then b else 0))"
    if "- b < x" "x < b" for x
  proof (cases "0 \<le> x")
    case True
    then have "\<lfloor>(x + b) / b\<rfloor> = 1"
      using that assms by (simp add: floor_eq_iff field_simps)
    then show ?thesis using True that assms by (simp add: js_rem_def sgn_if abs_if)
  next
    case False
    then have "\<lfloor>(x + b) / b\<rfloor> = 0"
      using that assms by (simp add: floor_eq_iff field_simps)
    then show ?thesis using False that assms by (simp add: js_rem_def sgn_if abs_if)
  qed
  show ?thesis
    using r assms inner outer [of "js_rem a b"]
    by (auto simp add: r_def [symmetric] k_def [symmetric] split: if_splits)
qed

lemma closest_note_major:
  assumes "0 \<le> sio" "sio < 12"
  defines "cn \<equiv> snd (fold (closest_step sio) [0, 2, 4, 5, 7, 9, 11] (PosInfinity, 0))"
  shows "cn \<in> {0, 2, 4, 5, 7, 9, 11} \<and> (\<forall>n\<in>{0, 2, 4, 5, 7, 9, 11}. \<bar>sio - cn\<bar> \<le> \<bar>sio - n\<bar>)"
proof -
  let ?major = "[0, 2, 4, 5, 7, 9, 11] :: real list"
  define C where "C = set ?major \<union> (\<lambda>n. n - 12) ` set ?major"
  have "closest_inv sio {} (PosInfinity, 0)" by (simp add: closest_inv_def)
  from closest_fold_inv [OF this, of ?major]
  have inv: "closest_inv sio C (fold (closest_step sio) ?major (PosInfinity, 0))"
    by (simp only: C_def Un_empty_left)
  have ne: "C \<noteq> {}" by (simp add: C_def)
  from inv ne have mem: "cn \<in> C" and least: "\<And>c. c \<in> C \<Longrightarrow> \<bar>sio - cn\<bar> \<le> \<bar>sio - c\<bar>"
    unfolding closest_inv_def cn_def by blast+
  have zero: "0 \<in> C" by (simp add: C_def)
  have "\<bar>sio - cn\<bar> \<le> \<bar>sio - 0\<bar>" by (rule least [OF zero])
  then have le: "\<bar>sio - cn\<bar> \<le> sio" using assms(1) by simp
  have major: "cn \<in> set ?major"
  proof (rule ccontr)
    assume "cn \<notin> set ?major"
    with mem obtain n where n: "n \<in> set ?major" "cn = n - 12" unfolding C_def by blast
    then have "n \<le> 11" by auto
    then have "sio < \<bar>sio - cn\<bar>" using n(2) assms(1) by simp
    with le show False by simp
  qed
  have "\<bar>sio - cn\<bar> \<le> \<bar>sio - n\<bar>" if "n \<in> set ?major" for n
    using least [of n] that unfolding C_def by blast
  with major show ?thesis by simp
qed

lemma snapToScale_major:
  "snapToScale f ''major''
   = 440 * 2 powr ((of_int \<lfloor>12 * log 2 (f / 440) / 12\<rfloor> * 12
       + snd (fold (closest_step (12 * log 2 (f / 440) - 12 * of_int \<lfloor>12 * log 2 (f / 440) / 12\<rfloor>))
               [0, 2, 4, 5, 7, 9, 11] (PosInfinity, 0))) / 12)"
  by (simp add: snapToScale_def scales_def Let_def js_rem_wrap)

lemma snapToScale_note:
  fixes k :: int
  assumes "cn \<in> {0, 2, 4, 5, 7, 9, 11 :: real}"
  shows "snapToScale (440 * 2 powr ((of_int k * 12 + cn) / 12)) ''major''
         = 440 * 2 powr ((of_int k * 12 + cn) / 12)"
proof -
  let ?f = "440 * 2 powr ((of_int k * 12 + cn) / 12)"
  have s: "12 * log 2 (?f / 440) = of_int k * 12 + cn" by simp
  have cn: "0 \<le> cn" "cn < 12" using assms by auto
  have "of_int k \<le> (of_int k * 12 + cn) / 12" "(of_int k * 12 + cn) / 12 < of_int k + 1"
    using cn by (simp_all add: field_simps)
  then have o: "\<lfloor>(of_int k * 12 + cn) / 12\<rfloor> = k" by (simp add: floor_eq_iff)
  define cn' where "cn' = snd (fold (closest_step cn) [0, 2, 4, 5, 7, 9, 11] (PosInfinity, 0))"
  have "\<bar>cn - cn'\<bar> \<le> \<bar>cn - cn\<bar>"
    using closest_note_major [OF cn] assms unfolding cn'_def by blast
  then have "cn' = cn" by simp
  then show ?thesis
    unfolding snapToScale_major s o by (simp add: cn'_def)
qed

text \<open>
  C6: over the reals, \<open>snapToScale\<close> is idempotent on the major scale for every
  frequency \<open>f > 0\<close>: a snapped frequency is \<open>440 * 2 powr ((12 * octave + note) / 12)\<close>
  for a note of the scale, and snapping it finds the same octave and the same note.
\<close>

theorem snapToScale_idempotent:
  assumes "0 < f"
  shows "snapToScale (snapToScale f ''major'') ''major'' = snapToScale f ''major''"
proof -
  define s where "s = 12 * log 2 (f / 440)"
  define sio where "sio = s - 12 * of_int \<lfloor>s / 12\<rfloor>"
  have "of_int \<lfloor>s / 12\<rfloor> \<le> s / 12" "s / 12 < of_int \<lfloor>s / 12\<rfloor> + 1" by linarith+
  then have sio: "0 \<le> sio" "sio < 12" by (simp_all add: sio_def field_simps)
  define cn where "cn = snd (fold (closest_step sio) [0, 2, 4, 5, 7, 9, 11] (PosInfinity, 0))"
  have cn: "cn \<in> {0, 2, 4, 5, 7, 9, 11}"
    using closest_note_major [OF sio] unfolding cn_def by blast
  have "snapToScale f ''major'' = 440 * 2 powr ((of_int \<lfloor>s / 12\<rfloor> * 12 + cn) / 12)"
    unfolding snapToScale_major cn_def sio_def s_def ..
  then show ?thesis using snapToScale_note [OF cn, of "\<lfloor>s / 12\<rfloor>"] by simp
qed

theorem snapToScale_idempotent_witness:
  "(0 :: real) < 450
   \<and> snapToScale (snapToScale 450 ''major'') ''major'' = snapToScale 450 ''major''"
  using snapToScale_idempotent [of 450] by simp

subsection \<open>emitWave\<close>

text \<open>
  C10: on an active emitter \<open>emitWave\<close> returns a wave and sets \<open>lastEmitTime\<close> to the
  wave's \<open>createdAt\<close>, which is the value of the clock when the timestamp is omitted or
  is 0, and the passed timestamp when that is not 0. Nothing else of the emitter changes.
\<close>

theorem emitWave_createdAt:
  assumes "active e"
  shows "\<exists>wave calls.
           emitWave e intensity' timestamp random now
             = (Some wave, e\<lparr>lastEmitTime := createdAt wave\<rparr>, calls)
           \<and> createdAt wave
               = (case timestamp of None \<Rightarrow> now | Some t \<Rightarrow> if t = 0 then now else t)"
  using assms by (simp add: emitWave_def Let_def split: option.splits)

theorem emitWave_createdAt_witness:
  "active thruster
   \<and> (\<exists>wave calls.
         emitWave thruster (Some 1) (Some 0) (1 / 2) 2500
           = (Some wave, thruster\<lparr>lastEmitTime := createdAt wave\<rparr>, calls)
         \<and> createdAt wave = 2500)
   \<and> (\<exists>wave calls.
         emitWave thruster (Some 1) None (1 / 2) 2500
           = (Some wave, thruster\<lparr>lastEmitTime := createdAt wave\<rparr>, calls)
         \<and> createdAt wave = 2500)
   \<and> (\<exists>wave calls.
         emitWave thruster (Some 1) (Some 1234) (1 / 2) 2500
           = (Some wave, thruster\<lparr>lastEmitTime := createdAt wave\<rparr>, calls)
         \<and> createdAt wave = 1234)"
proof -
  have a: "active thruster" by (simp add: thruster_def)
  show ?thesis
    using a emitWave_createdAt [OF a, of "Some 1" "Some 0" "1 / 2" 2500]
      emitWave_createdAt [OF a, of "Some 1" None "1 / 2" 2500]
      emitWave_createdAt [OF a, of "Some 1" "Some 1234" "1 / 2" 2500]
    by simp
qed

subsection \<open>Traveling waves\<close>

lemma updateTravelingWaves_distinct:
  assumes "distinct refs"
  shows "updateTravelingWaves dt refs store
         = (filter (\<lambda>ref. \<not> removal (grow dt (store ref))) refs,
            (\<lambda>ref. if ref \<in> set refs then grow dt (store ref) else store ref))"
  using assms
proof (induction refs arbitrary: store)
  case Nil
  then show ?case by simp
next
  case (Cons ref refs)
  let ?store1 = "store(ref := grow dt (store ref))"
  have d: "distinct refs" "ref \<notin> set refs" using Cons.prems by simp_all
  have same: "filter (\<lambda>r. \<not> removal (grow dt (?store1 r))) refs
              = filter (\<lambda>r. \<not> removal (grow dt (store r))) refs"
    using d(2) by (intro filter_cong) auto
  have st: "(\<lambda>r. if r \<in> set refs then grow dt (?store1 r) else ?store1 r)
            = (\<lambda>r. if r \<in> set (ref # refs) then grow dt (store r) else store r)"
    using d(2) by auto
  have keep: "(radius (grow dt (store ref)) < maxRadius (grow dt (store ref))
               \<and> intensity (grow dt (store ref)) > 0.01) = (\<not> removal (grow dt (store ref)))"
    by (auto simp add: removal_def)
  show ?case
    using keep by (simp add: Cons.IH [OF d(1)] same st Let_def del: fun_upd_apply)
qed

lemma grow_late_wave:
  "radius (grow (1 / 10) late_wave) = 310 \<and> maxRadius (grow (1 / 10) late_wave) = 300
   \<and> intensity (grow (1 / 10) late_wave) = 29 / 60"
  by (simp add: grow_def late_wave_def Let_def)

text \<open>
  C5 as stated: a wave that \<open>updateTravelingWaves\<close> has removed contributes no further
  pulses. With \<open>deltaTime = 0.1\<close> the wave of radius 290 grows to 310, past its maximal
  radius 300, with intensity 29/60: the renderer's array drops it, and the same
  \<open>Game.update\<close> then passes it to \<open>addWavePulse\<close>.
\<close>

theorem removed_wave_still_pulsed:
  "waveRenderer_travelingWaves late_wave_game = [0]
   \<and> waveRenderer_travelingWaves (fst (Game_update (1 / 10) late_wave_game)) = []
   \<and> snd (Game_update (1 / 10) late_wave_game) = [0]
   \<and> radius (waves (fst (Game_update (1 / 10) late_wave_game)) 0) = 310
   \<and> intensity (waves (fst (Game_update (1 / 10) late_wave_game)) 0) = 29 / 60"
  using grow_late_wave by (simp add: Game_update_def late_wave_game_def Let_def)

text \<open>
  A wave that lands on its maximal radius exactly is dropped by the renderer (\<^verbatim>\<open><\<close>) and
  kept by the game (\<^verbatim>\<open><=\<close>): it is not updated again, stays in the game's array, and is
  passed to \<open>addWavePulse\<close> in every later \<open>Game.update\<close>.
\<close>

lemma grow_late_wave_boundary:
  "radius (grow (1 / 20) late_wave) = 300 \<and> maxRadius (grow (1 / 20) late_wave) = 300
   \<and> intensity (grow (1 / 20) late_wave) = 1 / 2"
  by (simp add: grow_def late_wave_def Let_def)

lemma wave_at_maxRadius_stays:
  "fst (Game_update (1 / 20) late_wave_game)
     = late_wave_game\<lparr>waves := (\<lambda>ref. late_wave)(0 := grow (1 / 20) late_wave),
                       waveRenderer_travelingWaves := []\<rparr>
   \<and> snd (Game_update (1 / 20) late_wave_game) = [0]
   \<and> Game_update deltaTime (fst (Game_update (1 / 20) late_wave_game))
       = (fst (Game_update (1 / 20) late_wave_game), [0])"
proof -
  let ?g = "late_wave_game\<lparr>waves := (\<lambda>ref. late_wave)(0 := grow (1 / 20) late_wave),
                       waveRenderer_travelingWaves := []\<rparr>"
  have 1: "Game_update (1 / 20) late_wave_game = (?g, [0])"
    using grow_late_wave_boundary by (simp add: Game_update_def late_wave_game_def Let_def)
  have 2: "Game_update deltaTime ?g = (?g, [0])"
    using grow_late_wave_boundary by (simp add: Game_update_def late_wave_game_def Let_def)
  show ?thesis by (simp only: 1 2 fst_conv snd_conv)
qed

text \<open>
  C5, amended: for waves with a maximal radius other than 0, each once in the renderer's
  array, \<open>updateTravelingWaves\<close> grows every wave of the array (\<open>radius += speed * dt\<close>,
  \<open>intensity = max(0, intensity * (1 - radius / maxRadius / 2))\<close>) and removes it from the
  array exactly when then \<open>radius >= maxRadius\<close> or \<open>intensity <= 0.01\<close>. The \<open>Game.update\<close>
  that ran it then passes to \<open>addWavePulse\<close> every wave of the game's array whose
  intensity exceeds 0.05, and drops from the game's array every wave with
  \<open>radius > maxRadius\<close> or \<open>intensity <= 0.01\<close>; a wave that is not in the game's array
  is passed to no pulse.
\<close>

theorem travelingWaves_lifecycle:
  assumes "distinct (waveRenderer_travelingWaves g)"
    and "list_all (\<lambda>ref. maxRadius (waves g ref) \<noteq> 0) (waveRenderer_travelingWaves g)"
    and "Game_update deltaTime g = (g', pulses)"
  shows "waveRenderer_travelingWaves g'
           = filter (\<lambda>ref. \<not> removal (waves g' ref)) (waveRenderer_travelingWaves g)
         \<and> (\<forall>ref. waves g' ref
               = (if ref \<in> set (waveRenderer_travelingWaves g)
                  then grow (min deltaTime 0.1) (waves g ref) else waves g ref))
         \<and> pulses = filter (\<lambda>ref. intensity (waves g' ref) > 0.05) (travelingWaves g)
         \<and> (\<forall>ref. radius (waves g' ref) > maxRadius (waves g' ref) \<or> intensity (waves g' ref) \<le> 0.01
               \<longrightarrow> ref \<notin> set (travelingWaves g'))
         \<and> set (travelingWaves g') \<subseteq> set (travelingWaves g)
         \<and> (\<forall>ref. ref \<notin> set (travelingWaves g) \<longrightarrow> ref \<notin> set pulses)"
proof -
  let ?dt = "min deltaTime 0.1"
  let ?w1 = "\<lambda>ref. if ref \<in> set (waveRenderer_travelingWaves g)
                  then grow ?dt (waves g ref) else waves g ref"
  have u: "updateTravelingWaves ?dt (waveRenderer_travelingWaves g) (waves g)
           = (filter (\<lambda>ref. \<not> removal (grow ?dt (waves g ref))) (waveRenderer_travelingWaves g), ?w1)"
    by (rule updateTravelingWaves_distinct [OF assms(1)])
  have f: "filter (\<lambda>ref. \<not> removal (grow ?dt (waves g ref))) (waveRenderer_travelingWaves g)
           = filter (\<lambda>ref. \<not> removal (?w1 ref)) (waveRenderer_travelingWaves g)"
    by (intro filter_cong) auto
  from assms(3) have g': "g' = g\<lparr>waves := ?w1,
        travelingWaves := filter (\<lambda>ref. radius (?w1 ref) \<le> maxRadius (?w1 ref)
                          \<and> intensity (?w1 ref) > 0.01) (travelingWaves g),
        waveRenderer_travelingWaves :=
          filter (\<lambda>ref. \<not> removal (?w1 ref)) (waveRenderer_travelingWaves g)\<rparr>"
    and p: "pulses = filter (\<lambda>ref. intensity (?w1 ref) > 0.05) (travelingWaves g)"
    unfolding Game_update_def Let_def u f by simp_all
  show ?thesis unfolding g' p by auto
qed

theorem travelingWaves_lifecycle_witness:
  "distinct (waveRenderer_travelingWaves late_wave_game)
   \<and> list_all (\<lambda>ref. maxRadius (waves late_wave_game ref) \<noteq> 0)
         (waveRenderer_travelingWaves late_wave_game)
   \<and> (\<exists>g' pulses. Game_update (1 / 10) late_wave_game = (g', pulses)
         \<and> waveRenderer_travelingWaves g' = [] \<and> pulses = [0] \<and> travelingWaves g' = []
         \<and> removal (waves g' 0))"
proof -
  have h: "distinct (waveRenderer_travelingWaves late_wave_game)"
    "list_all (\<lambda>ref. maxRadius (waves late_wave_game ref) \<noteq> 0)
       (waveRenderer_travelingWaves late_wave_game)"
    by (simp_all add: late_wave_game_def late_wave_def)
  obtain g' pulses where u: "Game_update (1 / 10) late_wave_game = (g', pulses)"
    by (cases "Game_update (1 / 10) late_wave_game")
  from travelingWaves_lifecycle [OF h u]
  have w: "waves g' 0 = grow (1 / 10) late_wave"
    and r: "waveRenderer_travelingWaves g'
            = filter (\<lambda>ref. \<not> removal (waves g' ref)) (waveRenderer_travelingWaves late_wave_game)"
    and p: "pulses = filter (\<lambda>ref. intensity (waves g' ref) > 0.05) (travelingWaves late_wave_game)"
    and t: "radius (waves g' 0) > maxRadius (waves g' 0) \<or> intensity (waves g' 0) \<le> 0.01
            \<longrightarrow> 0 \<notin> set (travelingWaves g')"
    and sub: "set (travelingWaves g') \<subseteq> set (travelingWaves late_wave_game)"
    by (simp_all add: late_wave_game_def)
  have rm: "removal (waves g' 0)" using grow_late_wave by (simp add: w removal_def)
  have "waveRenderer_travelingWaves g' = []" using r rm by (simp add: late_wave_game_def)
  moreover have "pulses = [0]" using p grow_late_wave by (simp add: w late_wave_game_def)
  moreover have "0 \<notin> set (travelingWaves g')" using t grow_late_wave by (simp add: w)
  then have "travelingWaves g' = []"
    using sub by (cases "travelingWaves g'") (auto simp add: late_wave_game_def)
  ultimately show ?thesis using h u rm by simp
qed

end
